theory Spec2Isabelle
  imports Complex_Main "HOL-Library.Word" "HOL-Library.AList"
begin

text \<open>
  The contact form of \<^verbatim>\<open>src/ContactForm.tsx\<close>: the zod schema \<open>contactSchema\<close>
  (lines 6 to 32), the form state that \<open>useForm\<close> keeps with \<open>zodResolver\<close> in the mode
  \<open>onBlur\<close> (lines 38 to 45), and the submit handler \<open>onSubmit\<close> behind \<open>handleSubmit\<close>
  (lines 47 to 53). The schema is written with the builders of zod 3 and the form with
  react-hook-form 7; what these builders and hooks do is part of what the component
  does, so their parse, their error messages and their submit protocol are embedded
  here next to the component's own data.
\<close>

section \<open>JavaScript values\<close>

text \<open>
  A JavaScript string is a sequence of UTF-16 code units, and \<open>length\<close> counts code
  units. The number type is an IEEE double: every finite double is a rational, and the
  schema only compares numbers with the integers 18 and 120, so a finite number is kept
  as the rational it denotes, next to the three special values.
\<close>

type_synonym cu = "16 word"
type_synonym jsstring = "cu list"

datatype jsnum = NaN | NegInf | Fin rat | PosInf

datatype jsval =
    JUndefined
  | JNull
  | JBool bool
  | JNum jsnum
  | JStr jsstring

text \<open>An ASCII literal as a JavaScript string.\<close>

definition ascii :: "string \<Rightarrow> jsstring" where
  "ascii s = map of_char s"

text \<open>The relational operators \<open><\<close> and \<open>>\<close> on numbers: false as soon as one side is NaN.\<close>

fun num_lt :: "jsnum \<Rightarrow> jsnum \<Rightarrow> bool" where
  "num_lt NaN _ = False"
| "num_lt _ NaN = False"
| "num_lt _ NegInf = False"
| "num_lt NegInf _ = True"
| "num_lt PosInf _ = False"
| "num_lt _ PosInf = True"
| "num_lt (Fin a) (Fin b) = (a < b)"

definition num_gt :: "jsnum \<Rightarrow> jsnum \<Rightarrow> bool" where
  "num_gt a b = num_lt b a"

section \<open>Regular expressions\<close>

text \<open>
  The fragment of ECMAScript patterns that the schema's two patterns are written in:
  the assertions \<open>^\<close>, \<open>$\<close> and \<open>(?!r)\<close>, character classes given as a list of
  inclusive ranges, \<open>.\<close>, sequencing, and the quantifiers \<open>{n,m}\<close> (\<open>Some m\<close>) and
  \<open>{n,}\<close> (\<open>None\<close>), so that \<open>*\<close> is \<open>Quant 0 None\<close> and \<open>+\<close> is \<open>Quant 1 None\<close>.
  Groups only capture, which \<open>test\<close> does not observe, and are left out.
\<close>

datatype regex =
    AssertStart
  | AssertEnd
  | CharClass "(cu \<times> cu) list"
  | Dot
  | Seq regex regex
  | Quant nat "nat option" regex
  | NegLookahead regex

text \<open>
  A matcher state is the index of the next code unit and the input from there on. A
  matcher maps a state to the states it can end in, so a pattern matches at a state iff
  that list is not empty. The order of the alternatives (greedy first) only decides
  which captures \<open>exec\<close> reports.
\<close>

type_synonym mstate = "nat \<times> jsstring"

text \<open>
  Canonicalize of the \<open>i\<close> flag without the \<open>u\<close> flag, on ASCII: a lower-case letter
  becomes its upper-case one. A code unit from 128 on never canonicalizes to an ASCII
  one, so against the ASCII classes used here it is left as it is.
\<close>

definition canonicalize :: "bool \<Rightarrow> cu \<Rightarrow> cu" where
  "canonicalize ic c = (if ic \<and> 0x61 \<le> c \<and> c \<le> 0x7A then c - 0x20 else c)"

definition in_class :: "bool \<Rightarrow> (cu \<times> cu) list \<Rightarrow> cu \<Rightarrow> bool" where
  "in_class ic rs c =
     (let cc = canonicalize ic c in
      list_ex (\<lambda>(lo, hi). (lo \<le> cc \<and> cc \<le> hi) \<or>
                 (ic \<and> 0x41 \<le> cc \<and> cc \<le> 0x5A \<and> lo \<le> cc + 0x20 \<and> cc + 0x20 \<le> hi)) rs)"

definition line_terminator :: "cu \<Rightarrow> bool" where
  "line_terminator c = (c = 0x0A \<or> c = 0x0D \<or> c = 0x2028 \<or> c = 0x2029)"

text \<open>Exactly \<open>n\<close> iterations of a matcher.\<close>

primrec exactly :: "nat \<Rightarrow> (mstate \<Rightarrow> mstate list) \<Rightarrow> mstate \<Rightarrow> mstate list" where
  "exactly 0 f st = [st]"
| "exactly (Suc n) f st = concat (map (exactly n f) (f st))"

text \<open>
  Up to \<open>k\<close> further iterations. Once the minimum is reached an iteration that
  matches the empty sequence is not considered (RepeatMatcher, step 2.b), so every
  further iteration moves the index.
\<close>

primrec at_most :: "nat \<Rightarrow> (mstate \<Rightarrow> mstate list) \<Rightarrow> mstate \<Rightarrow> mstate list" where
  "at_most 0 f st = [st]"
| "at_most (Suc k) f st =
     st # concat (map (at_most k f) (filter (\<lambda>st'. fst st < fst st') (f st)))"

text \<open>
  With no upper bound, the iterations that move the index are at most as many as the
  code units left, which bounds the loop.
\<close>

primrec rmatch :: "bool \<Rightarrow> regex \<Rightarrow> mstate \<Rightarrow> mstate list" where
  "rmatch ic AssertStart = (\<lambda>st. if fst st = 0 then [st] else [])"
| "rmatch ic AssertEnd = (\<lambda>st. if snd st = [] then [st] else [])"
| "rmatch ic (CharClass rs) =
     (\<lambda>st. case snd st of
              [] \<Rightarrow> []
            | c # t \<Rightarrow> if in_class ic rs c then [(Suc (fst st), t)] else [])"
| "rmatch ic Dot =
     (\<lambda>st. case snd st of
              [] \<Rightarrow> []
            | c # t \<Rightarrow> if line_terminator c then [] else [(Suc (fst st), t)])"
| "rmatch ic (Seq a b) = (\<lambda>st. concat (map (rmatch ic b) (rmatch ic a st)))"
| "rmatch ic (Quant n mo a) =
     (\<lambda>st. concat (map (\<lambda>st'. at_most (case mo of None \<Rightarrow> length (snd st')
                                               | Some m \<Rightarrow> m - n) (rmatch ic a) st')
                        (exactly n (rmatch ic a) st)))"
| "rmatch ic (NegLookahead a) = (\<lambda>st. if rmatch ic a st = [] then [st] else [])"

text \<open>
  \<open>RegExp.prototype.test\<close> of a pattern without the \<open>g\<close> and \<open>y\<close> flags: the match is
  tried from every index of the input, 0 to its length.
\<close>

definition regex_test :: "bool \<Rightarrow> regex \<Rightarrow> jsstring \<Rightarrow> bool" where
  "regex_test ic r s = list_ex (\<lambda>i. rmatch ic r (i, drop i s) \<noteq> []) [0..<Suc (length s)]"

fun seqs :: "regex list \<Rightarrow> regex" where
  "seqs [r] = r"
| "seqs (r # rs) = Seq r (seqs rs)"
| "seqs [] = Quant 0 (Some 0) Dot"

text \<open>The phone pattern \<^verbatim>\<open>/^[0-9]{10,11}$/\<close> (line 13), without flags.\<close>

definition phoneRegex :: regex where
  "phoneRegex = seqs [AssertStart, Quant 10 (Some 11) (CharClass [(0x30, 0x39)]), AssertEnd]"

text \<open>
  The pattern behind \<open>z.string().email()\<close> (lines 8 to 10), which zod keeps as a
  constant of its own; this is the one of zod 3.23, with the \<open>i\<close> flag:
  \<^verbatim>\<open>/^(?!\.)(?!.*\.\.)([A-Z0-9_'+\-\.]*)[A-Z0-9_+-]@([A-Z0-9][A-Z0-9\-]*\.)+[A-Z]{2,}$/i\<close>.
\<close>

definition emailRegex :: regex where
  "emailRegex = seqs
     [AssertStart,
      NegLookahead (CharClass [(0x2E, 0x2E)]),
      NegLookahead (seqs [Quant 0 None Dot, CharClass [(0x2E, 0x2E)], CharClass [(0x2E, 0x2E)]]),
      Quant 0 None (CharClass [(0x41, 0x5A), (0x30, 0x39), (0x5F, 0x5F), (0x27, 0x27),
                               (0x2B, 0x2B), (0x2D, 0x2D), (0x2E, 0x2E)]),
      CharClass [(0x41, 0x5A), (0x30, 0x39), (0x5F, 0x5F), (0x2B, 0x2B), (0x2D, 0x2D)],
      CharClass [(0x40, 0x40)],
      Quant 1 None (seqs [CharClass [(0x41, 0x5A), (0x30, 0x39)],
                          Quant 0 None (CharClass [(0x41, 0x5A), (0x30, 0x39), (0x2D, 0x2D)]),
                          CharClass [(0x2E, 0x2E)]]),
      Quant 2 None (CharClass [(0x41, 0x5A)]),
      AssertEnd]"

section \<open>The zod schema\<close>

text \<open>The keys of the form's value object. A key that is absent reads as \<open>undefined\<close>.\<close>

datatype field = Name | Email | Phone | Age | Gender | InquiryType | Message | Agree

type_synonym jsobject = "field \<Rightarrow> jsval"

datatype ZodParsedType = T_undefined | T_null | T_boolean | T_nan | T_number | T_string

fun getParsedType :: "jsval \<Rightarrow> ZodParsedType" where
  "getParsedType JUndefined = T_undefined"
| "getParsedType JNull = T_null"
| "getParsedType (JBool _) = T_boolean"
| "getParsedType (JNum n) = (if n = NaN then T_nan else T_number)"
| "getParsedType (JStr _) = T_string"

fun type_name :: "ZodParsedType \<Rightarrow> string" where
  "type_name T_undefined = ''undefined''"
| "type_name T_null = ''null''"
| "type_name T_boolean = ''boolean''"
| "type_name T_nan = ''nan''"
| "type_name T_number = ''number''"
| "type_name T_string = ''string''"

datatype ZodIssueCode =
  invalid_type | too_small | too_big | invalid_string | invalid_enum_value | custom

record ZodIssue =
  code :: ZodIssueCode
  path :: "field list"
  message :: jsstring

text \<open>A parse adds issues to its context and returns \<open>INVALID\<close>, \<open>DIRTY v\<close> or \<open>OK v\<close>.\<close>

datatype 'a ParseReturn = INVALID | DIRTY 'a | OK 'a

type_synonym ParseInput = "field list \<times> jsval"

text \<open>
  The \<open>invalid_type_error\<close> and \<open>required_error\<close> of a schema's creation parameters.
  They become the schema's error map: for an \<open>invalid_type\<close> issue, \<open>required_error\<close> when
  the data is \<open>undefined\<close> and \<open>invalid_type_error\<close> otherwise, each falling back to the
  default message when it was not given.
\<close>

record RawCreateParams =
  invalid_type_error :: "jsstring option"
  required_error :: "jsstring option"

definition defaultErrorMap :: "string \<Rightarrow> jsval \<Rightarrow> jsstring" where
  "defaultErrorMap expected v =
     (if getParsedType v = T_undefined then ascii ''Required''
      else ascii (''Expected '' @ expected @ '', received '' @ type_name (getParsedType v)))"

definition customMap :: "RawCreateParams \<Rightarrow> jsval \<Rightarrow> jsstring \<Rightarrow> jsstring" where
  "customMap ps v defaultError =
     (if v = JUndefined then (case required_error ps of Some m \<Rightarrow> m | None \<Rightarrow> defaultError)
      else (case invalid_type_error ps of Some m \<Rightarrow> m | None \<Rightarrow> defaultError))"

definition invalid_type_issue :: "RawCreateParams option \<Rightarrow> string \<Rightarrow> ParseInput \<Rightarrow> ZodIssue" where
  "invalid_type_issue params expected inp =
     \<lparr>code = invalid_type, path = fst inp,
      message = (case params of
                   None \<Rightarrow> defaultErrorMap expected (snd inp)
                 | Some ps \<Rightarrow> customMap ps (snd inp) (defaultErrorMap expected (snd inp)))\<rparr>"

text \<open>
  The checks of a string and of a number schema, each with the message it was given.
  An issue takes the message of its check (none of the schema's messages is empty).
\<close>

datatype ZodStringCheck =
    SMin nat jsstring
  | SEmail jsstring
  | SRegex bool regex jsstring

datatype ZodNumberCheck =
    NMin rat jsstring
  | NMax rat jsstring

text \<open>JavaScript's ToBoolean, for the result of a refinement.\<close>

fun truthy :: "jsval \<Rightarrow> bool" where
  "truthy JUndefined = False"
| "truthy JNull = False"
| "truthy (JBool b) = b"
| "truthy (JNum n) = (n \<noteq> NaN \<and> n \<noteq> Fin 0)"
| "truthy (JStr s) = (s \<noteq> [])"

datatype ZodType =
    ZodString "ZodStringCheck list"
  | ZodNumber RawCreateParams "ZodNumberCheck list"
  | ZodEnum "jsstring list" jsstring
  | ZodBoolean
  | ZodEffects ZodType "jsval \<Rightarrow> jsval" jsstring

text \<open>The builders, named as in zod; \<open>nonempty(m)\<close> is \<open>min(1, m)\<close>.\<close>

definition z_string :: ZodType where
  "z_string = ZodString []"

definition z_number :: "RawCreateParams \<Rightarrow> ZodType" where
  "z_number ps = ZodNumber ps []"

definition z_enum :: "jsstring list \<Rightarrow> jsstring \<Rightarrow> ZodType" where
  "z_enum vs errorMap = ZodEnum vs errorMap"

definition z_boolean :: ZodType where
  "z_boolean = ZodBoolean"

fun add_string_check :: "ZodStringCheck \<Rightarrow> ZodType \<Rightarrow> ZodType" where
  "add_string_check c (ZodString cs) = ZodString (cs @ [c])"
| "add_string_check c t = t"

fun add_number_check :: "ZodNumberCheck \<Rightarrow> ZodType \<Rightarrow> ZodType" where
  "add_number_check c (ZodNumber ps cs) = ZodNumber ps (cs @ [c])"
| "add_number_check c t = t"

definition string_min :: "nat \<Rightarrow> jsstring \<Rightarrow> ZodType \<Rightarrow> ZodType" where
  "string_min n m = add_string_check (SMin n m)"

definition string_nonempty :: "jsstring \<Rightarrow> ZodType \<Rightarrow> ZodType" where
  "string_nonempty m = string_min 1 m"

definition string_email :: "jsstring \<Rightarrow> ZodType \<Rightarrow> ZodType" where
  "string_email m = add_string_check (SEmail m)"

definition string_regex :: "bool \<Rightarrow> regex \<Rightarrow> jsstring \<Rightarrow> ZodType \<Rightarrow> ZodType" where
  "string_regex ic r m = add_string_check (SRegex ic r m)"

definition number_min :: "rat \<Rightarrow> jsstring \<Rightarrow> ZodType \<Rightarrow> ZodType" where
  "number_min n m = add_number_check (NMin n m)"

definition number_max :: "rat \<Rightarrow> jsstring \<Rightarrow> ZodType \<Rightarrow> ZodType" where
  "number_max n m = add_number_check (NMax n m)"

definition refine :: "(jsval \<Rightarrow> jsval) \<Rightarrow> jsstring \<Rightarrow> ZodType \<Rightarrow> ZodType" where
  "refine check m t = ZodEffects t check m"

text \<open>Every check of a schema runs; each failing one adds its issue.\<close>

fun string_check :: "field list \<Rightarrow> jsstring \<Rightarrow> ZodStringCheck \<Rightarrow> ZodIssue list" where
  "string_check p s (SMin n m) =
     (if length s < n then [\<lparr>code = too_small, path = p, message = m\<rparr>] else [])"
| "string_check p s (SEmail m) =
     (if \<not> regex_test True emailRegex s
      then [\<lparr>code = invalid_string, path = p, message = m\<rparr>] else [])"
| "string_check p s (SRegex ic r m) =
     (if \<not> regex_test ic r s
      then [\<lparr>code = invalid_string, path = p, message = m\<rparr>] else [])"

fun number_check :: "field list \<Rightarrow> jsnum \<Rightarrow> ZodNumberCheck \<Rightarrow> ZodIssue list" where
  "number_check p x (NMin n m) =
     (if num_lt x (Fin n) then [\<lparr>code = too_small, path = p, message = m\<rparr>] else [])"
| "number_check p x (NMax n m) =
     (if num_gt x (Fin n) then [\<lparr>code = too_big, path = p, message = m\<rparr>] else [])"

definition checked :: "ZodIssue list \<Rightarrow> jsval \<Rightarrow> ZodIssue list \<times> jsval ParseReturn" where
  "checked is v = (is, if is = [] then OK v else DIRTY v)"

fun parse :: "ZodType \<Rightarrow> ParseInput \<Rightarrow> ZodIssue list \<times> jsval ParseReturn" where
  "parse (ZodString cs) (p, v) =
     (case v of
        JStr s \<Rightarrow> checked (concat (map (string_check p s) cs)) v
      | _ \<Rightarrow> ([invalid_type_issue None ''string'' (p, v)], INVALID))"
| "parse (ZodNumber ps cs) (p, v) =
     (case v of
        JNum x \<Rightarrow>
          if getParsedType v \<noteq> T_number
          then ([invalid_type_issue (Some ps) ''number'' (p, v)], INVALID)
          else checked (concat (map (number_check p x) cs)) v
      | _ \<Rightarrow> ([invalid_type_issue (Some ps) ''number'' (p, v)], INVALID))"
| "parse (ZodEnum vs errorMap) (p, v) =
     (case v of
        JStr s \<Rightarrow>
          if s \<in> set vs then ([], OK v)
          else ([\<lparr>code = invalid_enum_value, path = p, message = errorMap\<rparr>], INVALID)
      | _ \<Rightarrow> ([\<lparr>code = invalid_type, path = p, message = errorMap\<rparr>], INVALID))"
| "parse ZodBoolean (p, v) =
     (case v of
        JBool b \<Rightarrow> ([], OK v)
      | _ \<Rightarrow> ([invalid_type_issue None ''boolean'' (p, v)], INVALID))"
| "parse (ZodEffects t check m) (p, v) =
     (case parse t (p, v) of
        (is, INVALID) \<Rightarrow> (is, INVALID)
      | (is, DIRTY x) \<Rightarrow>
          (is @ (if truthy (check x) then [] else [\<lparr>code = custom, path = p, message = m\<rparr>]),
           DIRTY x)
      | (is, OK x) \<Rightarrow>
          if truthy (check x) then (is, OK x)
          else (is @ [\<lparr>code = custom, path = p, message = m\<rparr>], DIRTY x))"

text \<open>
  \<open>z.object\<close>: every key of the shape is parsed, in the shape's order, before the
  results are merged, so the issues of all the fields are collected. The merge is
  \<open>INVALID\<close> if one field is, \<open>DIRTY\<close> if one is dirty, and carries the object of the
  parsed values; keys outside the shape are stripped.
\<close>

type_synonym shape = "(field \<times> ZodType) list"

definition parse_fields :: "shape \<Rightarrow> jsobject \<Rightarrow> (field \<times> ZodIssue list \<times> jsval ParseReturn) list" where
  "parse_fields sh obj = map (\<lambda>(k, t). (k, parse t ([k], obj k))) sh"

fun returned :: "'a ParseReturn \<Rightarrow> 'a option" where
  "returned INVALID = None"
| "returned (DIRTY x) = Some x"
| "returned (OK x) = Some x"

definition finalObject :: "(field \<times> ZodIssue list \<times> jsval ParseReturn) list \<Rightarrow> jsobject" where
  "finalObject rs k =
     (case map_of rs k of
        None \<Rightarrow> JUndefined
      | Some (is, r) \<Rightarrow> (case returned r of None \<Rightarrow> JUndefined | Some x \<Rightarrow> x))"

definition mergeObjectSync ::
  "(field \<times> ZodIssue list \<times> jsval ParseReturn) list \<Rightarrow> jsobject ParseReturn" where
  "mergeObjectSync rs =
     (if list_ex (\<lambda>(k, is, r). r = INVALID) rs then INVALID
      else if list_ex (\<lambda>(k, is, r). case r of DIRTY x \<Rightarrow> True | _ \<Rightarrow> False) rs
           then DIRTY (finalObject rs)
      else OK (finalObject rs))"

definition parse_object :: "shape \<Rightarrow> jsobject \<Rightarrow> ZodIssue list \<times> jsobject ParseReturn" where
  "parse_object sh obj =
     (let rs = parse_fields sh obj
      in (concat (map (\<lambda>(k, is, r). is) rs), mergeObjectSync rs))"

text \<open>\<open>safeParse\<close>: the data when the result is \<open>OK\<close>, the collected issues otherwise.\<close>

definition safeParse :: "shape \<Rightarrow> jsobject \<Rightarrow> ZodIssue list + jsobject" where
  "safeParse sh obj =
     (case parse_object sh obj of
        (is, OK x) \<Rightarrow> Inr x
      | (is, _) \<Rightarrow> Inl is)"

section \<open>The contact form\<close>

text \<open>
  The messages of the schema, as the UTF-16 code units of the source's string literals.
  In the order of the schema: the name needs two characters or more; enter a valid e-mail
  address; enter the phone number as 10 to 11 digits; enter the age as a number; you must
  be 18 or older; the age is not valid; select a gender; select an inquiry type; enter a
  content of ten characters or more; agree to the terms of use.
\<close>

definition msg_name :: jsstring where
  "msg_name = [0x540D, 0x524D, 0x306F, 0x0032, 0x6587, 0x5B57, 0x4EE5, 0x4E0A, 0x5FC5, 0x8981,
     0x3067, 0x3059]"

definition msg_email :: jsstring where
  "msg_email = [0x6709, 0x52B9, 0x306A, 0x30E1, 0x30FC, 0x30EB, 0x30A2, 0x30C9, 0x30EC, 0x30B9,
     0x3092, 0x5165, 0x529B, 0x3057, 0x3066, 0x304F, 0x3060, 0x3055, 0x3044]"

definition msg_phone :: jsstring where
  "msg_phone = [0x96FB, 0x8A71, 0x756A, 0x53F7, 0x306F, 0x0031, 0x0030, 0x301C, 0x0031, 0x0031,
     0x6841, 0x306E, 0x6570, 0x5B57, 0x3067, 0x5165, 0x529B, 0x3057, 0x3066, 0x304F, 0x3060,
     0x3055, 0x3044]"

definition msg_age_type :: jsstring where
  "msg_age_type = [0x5E74, 0x9F62, 0x306F, 0x6570, 0x5B57, 0x3067, 0x5165, 0x529B, 0x3057,
     0x3066, 0x304F, 0x3060, 0x3055, 0x3044]"

definition msg_age_min :: jsstring where
  "msg_age_min = [0x0031, 0x0038, 0x6B73, 0x4EE5, 0x4E0A, 0x3067, 0x306A, 0x3051, 0x308C,
     0x3070, 0x306A, 0x308A, 0x307E, 0x305B, 0x3093]"

definition msg_age_max :: jsstring where
  "msg_age_max = [0x5E74, 0x9F62, 0x304C, 0x4E0D, 0x6B63, 0x3067, 0x3059]"

definition msg_gender :: jsstring where
  "msg_gender = [0x6027, 0x5225, 0x3092, 0x9078, 0x629E, 0x3057, 0x3066, 0x304F, 0x3060,
     0x3055, 0x3044]"

definition msg_inquiry :: jsstring where
  "msg_inquiry = [0x554F, 0x3044, 0x5408, 0x308F, 0x305B, 0x7A2E, 0x5225, 0x3092, 0x9078,
     0x629E, 0x3057, 0x3066, 0x304F, 0x3060, 0x3055, 0x3044]"

definition msg_message :: jsstring where
  "msg_message = [0x5185, 0x5BB9, 0x306F, 0x0031, 0x0030, 0x6587, 0x5B57, 0x4EE5, 0x4E0A,
     0x3067, 0x5165, 0x529B, 0x3057, 0x3066, 0x304F, 0x3060, 0x3055, 0x3044]"

definition msg_agree :: jsstring where
  "msg_agree = [0x5229, 0x7528, 0x898F, 0x7D04, 0x306B, 0x540C, 0x610F, 0x3057, 0x3066,
     0x304F, 0x3060, 0x3055, 0x3044]"

text \<open>The text of the alert: the form has been sent.\<close>

definition msg_sent :: jsstring where
  "msg_sent = [0x30D5, 0x30A9, 0x30FC, 0x30E0, 0x304C, 0x9001, 0x4FE1, 0x3055, 0x308C, 0x307E,
     0x3057, 0x305F, 0xFF01]"

definition contactSchema :: shape where
  "contactSchema =
     [(Name, string_min 2 msg_name z_string),
      (Email, string_email msg_email z_string),
      (Phone, string_regex False phoneRegex msg_phone z_string),
      (Age, number_max 120 msg_age_max (number_min 18 msg_age_min
              (z_number \<lparr>invalid_type_error = Some msg_age_type, required_error = None\<rparr>))),
      (Gender, z_enum [ascii ''male'', ascii ''female'', ascii ''other''] msg_gender),
      (InquiryType, string_nonempty msg_inquiry z_string),
      (Message, string_min 10 msg_message z_string),
      (Agree, refine (\<lambda>val. val) msg_agree z_boolean)]"

subsection \<open>The resolver\<close>

text \<open>
  \<open>zodResolver\<close> parses the values and, when the parse fails, keeps for every path
  the message and code of the first issue with that path. The errors are an object
  whose keys are in insertion order: an association list.
\<close>

type_synonym FieldError = "jsstring \<times> ZodIssueCode"
type_synonym FieldErrors = "(field list \<times> FieldError) list"

fun parseErrorSchema :: "FieldErrors \<Rightarrow> ZodIssue list \<Rightarrow> FieldErrors" where
  "parseErrorSchema errors [] = errors"
| "parseErrorSchema errors (e # es) =
     parseErrorSchema
       (if map_of errors (path e) = None then errors @ [(path e, (message e, code e))]
        else errors) es"

definition zodResolver :: "shape \<Rightarrow> jsobject \<Rightarrow> jsobject \<times> FieldErrors" where
  "zodResolver sh vals =
     (case safeParse sh vals of
        Inr data \<Rightarrow> (data, [])
      | Inl issues \<Rightarrow> (\<lambda>k. JUndefined, parseErrorSchema [] issues))"

subsection \<open>The form\<close>

text \<open>
  The state of the form: the current values, the errors on display, whether a submit
  event was handled, whether the number input holds text that is no number (its value is
  then the empty string, which \<open>valueAsNumber\<close> reads as NaN), and the two sinks of the
  submit handler, the console and the alerts.
\<close>

record FormState =
  formValues :: jsobject
  errors :: FieldErrors
  isSubmitted :: bool
  badInput :: bool
  console :: "(jsstring \<times> jsobject) list"
  alerts :: "jsstring list"

definition onSubmit :: "jsobject \<Rightarrow> FormState \<Rightarrow> FormState" where
  "onSubmit data st =
     st\<lparr>console := console st @ [(ascii ''Form data:'', data)],
        alerts := alerts st @ [msg_sent]\<rparr>"

text \<open>
  \<open>handleSubmit\<close> runs the resolver on the current values, stores its errors, and
  calls the handler with the resolver's values only when there is no error.
\<close>

definition handleSubmit :: "(jsobject \<Rightarrow> FormState \<Rightarrow> FormState) \<Rightarrow> FormState \<Rightarrow> FormState" where
  "handleSubmit onValid st =
     (let (vals, errs) = zodResolver contactSchema (formValues st);
          st' = st\<lparr>errors := errs, isSubmitted := True\<rparr>
      in if errs = [] then onValid vals st' else st')"

text \<open>
  Validation of one field, as the mode \<open>onBlur\<close> triggers it before the first submit
  and the default re-validation mode \<open>onChange\<close> after it: the resolver runs on all
  the values, and only the error of that field is set or removed.
\<close>

definition validateField :: "field \<Rightarrow> FormState \<Rightarrow> FormState" where
  "validateField f st =
     (let (vals, errs) = zodResolver contactSchema (formValues st)
      in st\<lparr>errors := (case map_of errs [f] of
                          None \<Rightarrow> AList.delete [f] (errors st)
                        | Some e \<Rightarrow> AList.update [f] e (errors st))\<rparr>)"

text \<open>
  The \<open>form\<close> element (line 53) has no \<open>novalidate\<close> attribute. A click on the submit
  button is therefore a submit attempt that the browser checks first: it validates the
  constraints of the controls and fires the submit event, which \<open>handleSubmit\<close> handles,
  only when they all hold (HTML standard, form submission). Two controls have a
  constraint. The input of type \<open>email\<close> (lines 71 to 76) must be empty or hold a valid
  e-mail address, which the standard defines by the pattern
  \<^verbatim>\<open>/^[a-zA-Z0-9.!#$%&'*+\/=?^_`{|}~-]+@[a-zA-Z0-9](?:[a-zA-Z0-9-]{0,61}[a-zA-Z0-9])?(?:\.[a-zA-Z0-9](?:[a-zA-Z0-9-]{0,61}[a-zA-Z0-9])?)*$/\<close>.
  The input of type \<open>number\<close> (lines 99 to 104) has the default step 1 from the step base
  0, so its number must be an integer, and it must not hold text that is no number. No
  control is required, and none has a pattern, a minimum or a maximum. When the check
  fails the browser reports the first invalid control to the user and nothing of the
  component runs.
\<close>

definition htmlEmailRegex :: regex where
  "htmlEmailRegex = seqs
     [AssertStart,
      Quant 1 None (CharClass [(0x61, 0x7A), (0x41, 0x5A), (0x30, 0x39), (0x2E, 0x2E),
                               (0x21, 0x21), (0x23, 0x23), (0x24, 0x24), (0x25, 0x25),
                               (0x26, 0x26), (0x27, 0x27), (0x2A, 0x2A), (0x2B, 0x2B),
                               (0x2F, 0x2F), (0x3D, 0x3D), (0x3F, 0x3F), (0x5E, 0x5E),
                               (0x5F, 0x5F), (0x60, 0x60), (0x7B, 0x7B), (0x7C, 0x7C),
                               (0x7D, 0x7D), (0x7E, 0x7E), (0x2D, 0x2D)]),
      CharClass [(0x40, 0x40)],
      CharClass [(0x61, 0x7A), (0x41, 0x5A), (0x30, 0x39)],
      Quant 0 (Some 1)
        (seqs [Quant 0 (Some 61) (CharClass [(0x61, 0x7A), (0x41, 0x5A), (0x30, 0x39),
                                             (0x2D, 0x2D)]),
               CharClass [(0x61, 0x7A), (0x41, 0x5A), (0x30, 0x39)]]),
      Quant 0 None
        (seqs [CharClass [(0x2E, 0x2E)],
               CharClass [(0x61, 0x7A), (0x41, 0x5A), (0x30, 0x39)],
               Quant 0 (Some 1)
                 (seqs [Quant 0 (Some 61) (CharClass [(0x61, 0x7A), (0x41, 0x5A),
                                                      (0x30, 0x39), (0x2D, 0x2D)]),
                        CharClass [(0x61, 0x7A), (0x41, 0x5A), (0x30, 0x39)]])]),
      AssertEnd]"

text \<open>
  The validity states of the two controls, read from the value that the form holds for
  each of them. A value that its control cannot hold (an e-mail that is no string, an age
  that is no number) has no mismatch.
\<close>

definition typeMismatch :: "jsval \<Rightarrow> bool" where
  "typeMismatch v =
     (case v of JStr s \<Rightarrow> s \<noteq> [] \<and> \<not> regex_test False htmlEmailRegex s | _ \<Rightarrow> False)"

definition stepMismatch :: "jsval \<Rightarrow> bool" where
  "stepMismatch v = (case v of JNum (Fin q) \<Rightarrow> of_int \<lfloor>q\<rfloor> \<noteq> q | _ \<Rightarrow> False)"

text \<open>
  The check of the whole form. Bad input counts while the form holds NaN for the age,
  which is the value of a number input in that state.
\<close>

definition checkValidity :: "FormState \<Rightarrow> bool" where
  "checkValidity st =
     (\<not> typeMismatch (formValues st Email) \<and>
      \<not> stepMismatch (formValues st Age) \<and>
      \<not> (badInput st \<and> formValues st Age = JNum NaN))"

text \<open>
  The events of the form: a control changes its value; the user types text that is no
  number into the number input; a control loses the focus; the user clicks the submit
  button.
\<close>

datatype event = Change field jsval | BadInput | Blur field | Submit

fun step :: "event \<Rightarrow> FormState \<Rightarrow> FormState" where
  "step (Change f v) st =
     (let st' = st\<lparr>formValues := (formValues st)(f := v),
                    badInput := (badInput st \<and> f \<noteq> Age)\<rparr>
      in if isSubmitted st then validateField f st' else st')"
| "step BadInput st =
     (let st' = st\<lparr>formValues := (formValues st)(Age := JNum NaN), badInput := True\<rparr>
      in if isSubmitted st then validateField Age st' else st')"
| "step (Blur f) st = (if isSubmitted st then st else validateField f st)"
| "step Submit st = (if checkValidity st then handleSubmit onSubmit st else st)"

text \<open>What the renderer shows below a field: the message of its error, if it has one.\<close>

definition errorMessage :: "FieldErrors \<Rightarrow> field \<Rightarrow> jsstring option" where
  "errorMessage errs f = map_option fst (map_of errs [f])"

subsection \<open>Notions used in the properties\<close>

text \<open>The issues that the schema of one key raises on the value of that key.\<close>

definition fieldIssues :: "shape \<Rightarrow> jsobject \<Rightarrow> field \<Rightarrow> ZodIssue list" where
  "fieldIssues sh obj k =
     (case map_of sh k of None \<Rightarrow> [] | Some t \<Rightarrow> fst (parse t ([k], obj k)))"

text \<open>
  The record of the specification's example: the name Yamada Taro in kanji, and a
  message of ten kana and kanji.
\<close>

definition sample :: jsobject where
  "sample k =
     (case k of
        Name \<Rightarrow> JStr [0x5C71, 0x7530, 0x592A, 0x90CE]
      | Email \<Rightarrow> JStr (ascii ''a@b.com'')
      | Phone \<Rightarrow> JStr (ascii ''09012345678'')
      | Age \<Rightarrow> JNum (Fin 25)
      | Gender \<Rightarrow> JStr (ascii ''male'')
      | InquiryType \<Rightarrow> JStr (ascii ''general'')
      | Message \<Rightarrow> JStr [0x304A, 0x554F, 0x3044, 0x5408, 0x308F, 0x305B, 0x5185, 0x5BB9,
                          0x3067, 0x3059]
      | Agree \<Rightarrow> JBool True)"

text \<open>
  The form as it is mounted. No default values are given, so each value is what its input
  element holds: the empty string for the text inputs, the select and the text area, NaN
  for the number input read with \<open>valueAsNumber\<close>, null for the radio group with no
  button checked, and false for the check box.
\<close>

definition emptyForm :: FormState where
  "emptyForm =
     \<lparr>formValues = (\<lambda>k. case k of Age \<Rightarrow> JNum NaN | Gender \<Rightarrow> JNull | Agree \<Rightarrow> JBool False
                         | _ \<Rightarrow> JStr []),
      errors = [], isSubmitted = False, badInput = False, console = [], alerts = []\<rparr>"

section \<open>The phone pattern\<close>

lemma in_class_digit: "in_class False [(0x30, 0x39)] c = (0x30 \<le> c \<and> c \<le> 0x39)"
  by (simp add: in_class_def canonicalize_def)

lemma exactly_class:
  "exactly n (rmatch ic (CharClass rs)) (i, s) =
     (if n \<le> length s \<and> (\<forall>c\<in>set (take n s). in_class ic rs c) then [(i + n, drop n s)] else [])"
proof (induction n arbitrary: i s)
  case 0
  then show ?case by simp
next
  case (Suc n)
  show ?case
  proof (cases s)
    case Nil
    then show ?thesis by simp
  next
    case (Cons c t)
    then show ?thesis using Suc.IH [of "Suc i" t] by simp
  qed
qed

lemma at_most_one_class:
  "at_most (Suc 0) (rmatch ic (CharClass rs)) (i, s) =
     (i, s) # (case s of [] \<Rightarrow> [] | c # t \<Rightarrow> if in_class ic rs c then [(Suc i, t)] else [])"
  by (cases s) simp_all

lemma phone_quant:
  "rmatch False (Quant 10 (Some 11) (CharClass [(0x30, 0x39)])) (i, s) =
     (if 10 \<le> length s \<and> (\<forall>c\<in>set (take 10 s). 0x30 \<le> c \<and> c \<le> 0x39)
      then (i + 10, drop 10 s) #
           (case drop 10 s of [] \<Rightarrow> []
            | c # t \<Rightarrow> if 0x30 \<le> c \<and> c \<le> 0x39 then [(Suc (i + 10), t)] else [])
      else [])"
proof -
  define D where "D = rmatch False (CharClass [(0x30, 0x39)])"
  have "rmatch False (Quant 10 (Some 11) (CharClass [(0x30, 0x39)])) (i, s) =
    concat (map (at_most (Suc 0) D) (exactly 10 D (i, s)))"
    unfolding D_def by (simp del: rmatch.simps(3) exactly.simps at_most.simps)
  also have "\<dots> = (if 10 \<le> length s \<and> (\<forall>c\<in>set (take 10 s). 0x30 \<le> c \<and> c \<le> 0x39)
      then at_most (Suc 0) D (i + 10, drop 10 s) else [])"
    unfolding D_def by (auto simp add: exactly_class in_class_digit simp del: rmatch.simps exactly.simps at_most.simps)
  also have "\<dots> = (if 10 \<le> length s \<and> (\<forall>c\<in>set (take 10 s). 0x30 \<le> c \<and> c \<le> 0x39)
      then (i + 10, drop 10 s) #
           (case drop 10 s of [] \<Rightarrow> []
            | c # t \<Rightarrow> if 0x30 \<le> c \<and> c \<le> 0x39 then [(Suc (i + 10), t)] else [])
      else [])"
    unfolding D_def by (simp only: at_most_one_class in_class_digit)
  finally show ?thesis .
qed

lemma phone_at:
  "rmatch False phoneRegex (i, s) \<noteq> [] \<longleftrightarrow>
     i = 0 \<and> (length s = 10 \<or> length s = 11) \<and> (\<forall>c\<in>set s. 0x30 \<le> c \<and> c \<le> 0x39)"
proof -
  let ?Q = "Quant 10 (Some 11) (CharClass [(0x30, 0x39)])"
  have unf: "rmatch False phoneRegex (i, s) \<noteq> [] \<longleftrightarrow>
      i = 0 \<and> (\<exists>st\<in>set (rmatch False ?Q (i, s)). snd st = [])"
    by (auto simp add: phoneRegex_def simp del: rmatch.simps(6))
  show ?thesis
  proof (cases "10 \<le> length s \<and> (\<forall>c\<in>set (take 10 s). 0x30 \<le> c \<and> c \<le> 0x39)")
    case False
    then have "rmatch False ?Q (i, s) = []"
      by (simp only: phone_quant if_False)
    moreover from False have "\<not> ((length s = 10 \<or> length s = 11) \<and> (\<forall>c\<in>set s. 0x30 \<le> c \<and> c \<le> 0x39))"
      by (auto dest: in_set_takeD)
    ultimately show ?thesis unfolding unf by (simp del: rmatch.simps)
  next
    case True
    obtain p r where sp: "s = p @ r" "length p = 10"
      using True by (metis append_take_drop_id length_take min.absorb2)
    with True have dp: "\<forall>c\<in>set p. 0x30 \<le> c \<and> c \<le> 0x39" by simp
    have q: "rmatch False ?Q (i, s) = (i + 10, r) #
           (case r of [] \<Rightarrow> []
            | c # t \<Rightarrow> if 0x30 \<le> c \<and> c \<le> 0x39 then [(Suc (i + 10), t)] else [])"
      using True sp by (simp only: phone_quant) simp
    show ?thesis
    proof (cases r)
      case Nil
      then show ?thesis unfolding unf q using sp dp by simp
    next
      case (Cons c t)
      then show ?thesis unfolding unf q using sp dp
        by (cases t) auto
    qed
  qed
qed

lemma phone_test:
  "regex_test False phoneRegex s \<longleftrightarrow>
     (length s = 10 \<or> length s = 11) \<and> (\<forall>c\<in>set s. 0x30 \<le> c \<and> c \<le> 0x39)"
proof -
  have "regex_test False phoneRegex s \<longleftrightarrow> (\<exists>i\<le>length s. rmatch False phoneRegex (i, drop i s) \<noteq> [])"
    by (auto simp add: regex_test_def list_ex_iff less_Suc_eq_le simp del: upt_Suc)
  also have "\<dots> \<longleftrightarrow> rmatch False phoneRegex (0, s) \<noteq> []"
    by (auto simp add: phone_at)
  finally show ?thesis by (simp add: phone_at)
qed

section \<open>The parse of an object\<close>

lemma map_of_parseErrorSchema:
  "map_of (parseErrorSchema errs is) p =
     (case map_of errs p of
        Some e \<Rightarrow> Some e
      | None \<Rightarrow> map_option (\<lambda>i. (message i, code i)) (find (\<lambda>i. path i = p) is))"
proof (induction "is" arbitrary: errs)
  case Nil
  then show ?case by (simp split: option.splits)
next
  case (Cons e es)
  show ?case
    by (auto simp add: Cons.IH map_add_def split: option.splits)
qed

lemma parseErrorSchema_Nil_iff:
  "parseErrorSchema errs is = [] \<longleftrightarrow> errs = [] \<and> is = []"
proof (induction "is" arbitrary: errs)
  case Nil
  then show ?case by simp
next
  case (Cons e es)
  show ?case by (auto simp add: Cons.IH)
qed

lemma checked_simps:
  "fst (checked is v) = is"
  "snd (checked is v) = OK x \<longleftrightarrow> is = [] \<and> x = v"
  "snd (checked is v) \<noteq> INVALID"
  by (auto simp add: checked_def)

lemma parse_path: "i \<in> set (fst (parse t (p, v))) \<Longrightarrow> path i = p"
proof (induction t "(p, v)" arbitrary: i rule: parse.induct)
  case (1 cs)
  then show ?case
    apply (cases v)
    apply (auto simp add: invalid_type_issue_def checked_def)
    subgoal for s c by (cases c) (auto split: if_splits)
    done
next
  case (2 ps cs)
  then show ?case
    apply (cases v)
    apply (auto simp add: invalid_type_issue_def checked_def split: if_splits)
    subgoal for s c by (cases c) (auto split: if_splits)
    done
next
  case (3 vs errorMap)
  then show ?case by (cases v) (auto split: if_splits)
next
  case 4
  then show ?case by (cases v) (auto simp add: invalid_type_issue_def)
next
  case (5 t check m)
  then show ?case
    by (auto split: prod.splits ParseReturn.splits if_splits)
qed

lemma parse_OK_iff:
  "snd (parse t (p, v)) = OK x \<longleftrightarrow> fst (parse t (p, v)) = [] \<and> x = v"
proof (induction t "(p, v)" arbitrary: x rule: parse.induct)
  case (1 cs)
  then show ?case by (cases v) (auto simp add: checked_def)
next
  case (2 ps cs)
  then show ?case by (cases v) (auto simp add: checked_def)
next
  case (3 vs errorMap)
  then show ?case by (cases v) auto
next
  case 4
  then show ?case by (cases v) auto
next
  case (5 t check m)
  show ?case
  proof (cases "parse t (p, v)")
    case (Pair iss r)
    with 5 [of x] 5 [of v] show ?thesis
      by (cases r) (auto split: if_splits)
  qed
qed


lemma issues_parse_object:
  "fst (parse_object sh obj) = concat (map (\<lambda>(k, t). fst (parse t ([k], obj k))) sh)"
  by (induction sh) (auto simp add: parse_object_def parse_fields_def case_prod_unfold)

lemma find_app:
  "find P (xs @ ys) = (case find P xs of None \<Rightarrow> find P ys | Some x \<Rightarrow> Some x)"
  by (induction xs) auto

lemma find_other_path:
  assumes "q \<noteq> p"
  shows "find (\<lambda>i. path i = q) (fst (parse t (p, v)) @ rest) = find (\<lambda>i. path i = q) rest"
proof -
  have "\<forall>i\<in>set (fst (parse t (p, v))). \<not> path i = q"
    using assms parse_path by blast
  then have "find (\<lambda>i. path i = q) (fst (parse t (p, v))) = None"
    by (simp add: find_None_iff)
  then show ?thesis by (simp add: find_app)
qed

lemma find_same_path:
  "find (\<lambda>i. path i = p) (fst (parse t (p, v)) @ rest) =
     (case fst (parse t (p, v)) of [] \<Rightarrow> find (\<lambda>i. path i = p) rest | i # _ \<Rightarrow> Some i)"
proof (cases "fst (parse t (p, v))")
  case Nil
  then show ?thesis by simp
next
  case (Cons i iss)
  then have "path i = p" using parse_path [of i t p v] by simp
  with Cons show ?thesis by simp
qed

lemma map_of_None_fieldIssues: "map_of sh k = None \<Longrightarrow> fieldIssues sh obj k = []"
  by (simp add: fieldIssues_def)

lemma find_parse_object:
  assumes "distinct (map fst sh)"
  shows "find (\<lambda>i. path i = [k]) (fst (parse_object sh obj)) =
     (case fieldIssues sh obj k of [] \<Rightarrow> None | i # _ \<Rightarrow> Some i)"
  using assms
proof (induction sh)
  case Nil
  then show ?case by (simp add: issues_parse_object fieldIssues_def)
next
  case (Cons kt sh)
  obtain k' t where kt: "kt = (k', t)" by (cases kt)
  have IH: "find (\<lambda>i. path i = [k]) (concat (map (\<lambda>(k, t). fst (parse t ([k], obj k))) sh)) =
     (case fieldIssues sh obj k of [] \<Rightarrow> None | i # _ \<Rightarrow> Some i)"
    using Cons by (simp add: issues_parse_object)
  show ?case
  proof (cases "k' = k")
    case True
    then have "map_of sh k = None" using Cons.prems kt
      by (simp add: map_of_eq_None_iff)
    then have "fieldIssues sh obj k = []" by (rule map_of_None_fieldIssues)
    then show ?thesis using True kt IH
      by (simp add: issues_parse_object find_same_path fieldIssues_def split: list.splits)
  next
    case False
    then have "[k] \<noteq> [k']" by simp
    from find_other_path [OF this] False kt IH show ?thesis
      by (simp add: issues_parse_object fieldIssues_def)
  qed
qed

lemma parse_not_OK_issues:
  "fst (parse t (p, v)) = [] \<longleftrightarrow> snd (parse t (p, v)) = OK v"
  by (simp add: parse_OK_iff)

lemma merge_OK_iff:
  "mergeObjectSync (parse_fields sh obj) = OK x \<longleftrightarrow>
     (\<forall>(k, t)\<in>set sh. fst (parse t ([k], obj k)) = []) \<and> x = finalObject (parse_fields sh obj)"
proof -
  have a: "\<not> list_ex (\<lambda>(k, is, r). r = INVALID) (parse_fields sh obj) \<and>
        \<not> list_ex (\<lambda>(k, is, r). case r of DIRTY x \<Rightarrow> True | _ \<Rightarrow> False) (parse_fields sh obj)
     \<longleftrightarrow> (\<forall>(k, t)\<in>set sh. snd (parse t ([k], obj k)) = OK (obj k))"
  proof (induction sh)
    case Nil
    then show ?case by (simp add: parse_fields_def)
  next
    case (Cons kt sh)
    obtain k t where kt: "kt = (k, t)" by (cases kt)
    obtain iss r where r: "parse t ([k], obj k) = (iss, r)" by (cases "parse t ([k], obj k)")
    have "\<And>y. r = OK y \<Longrightarrow> y = obj k"
      using parse_OK_iff [of t "[k]" "obj k"] r by auto
    then show ?case using Cons kt r
      by (cases r) (auto simp add: parse_fields_def)
  qed
  show ?thesis
    using a by (auto simp add: mergeObjectSync_def parse_not_OK_issues)
qed

lemma map_of_parse_fields:
  "map_of (parse_fields sh obj) k = map_option (\<lambda>t. parse t ([k], obj k)) (map_of sh k)"
  by (induction sh) (auto simp add: parse_fields_def)

lemma safeParse_iff:
  "safeParse sh obj = Inr x \<longleftrightarrow>
     (\<forall>(k, t)\<in>set sh. fst (parse t ([k], obj k)) = []) \<and> x = finalObject (parse_fields sh obj)"
proof -
  have "safeParse sh obj = Inr x \<longleftrightarrow> mergeObjectSync (parse_fields sh obj) = OK x"
    by (simp add: safeParse_def parse_object_def Let_def split: ParseReturn.splits)
  then show ?thesis by (simp only: merge_OK_iff)
qed

lemma safeParse_Inl:
  "safeParse sh obj = Inl iss \<Longrightarrow> iss = fst (parse_object sh obj)"
  by (auto simp add: safeParse_def split: prod.splits ParseReturn.splits)

lemma safeParse_cases:
  "safeParse sh obj = (if \<forall>(k, t)\<in>set sh. fst (parse t ([k], obj k)) = []
     then Inr (finalObject (parse_fields sh obj)) else Inl (fst (parse_object sh obj)))"
proof (cases "safeParse sh obj")
  case (Inl iss)
  then have "\<not> (\<forall>(k, t)\<in>set sh. fst (parse t ([k], obj k)) = [])"
    using safeParse_iff [of sh obj "finalObject (parse_fields sh obj)"] by auto
  with Inl safeParse_Inl [OF Inl] show ?thesis by simp
next
  case (Inr x)
  then show ?thesis using safeParse_iff [of sh obj x] by simp
qed


lemma fieldIssues_empty:
  "(\<forall>(k, t)\<in>set sh. fst (parse t ([k], obj k)) = []) \<Longrightarrow> fieldIssues sh obj k = []"
  by (auto simp add: fieldIssues_def split: option.splits dest: map_of_SomeD)

lemma errorMessage_resolver:
  assumes "distinct (map fst sh)"
  shows "errorMessage (snd (zodResolver sh obj)) k =
     (case fieldIssues sh obj k of [] \<Rightarrow> None | i # _ \<Rightarrow> Some (message i))"
proof (cases "\<forall>(k, t)\<in>set sh. fst (parse t ([k], obj k)) = []")
  case True
  then have "fieldIssues sh obj k = []" by (rule fieldIssues_empty)
  with True show ?thesis
    by (simp add: zodResolver_def safeParse_cases errorMessage_def)
next
  case False
  then have "safeParse sh obj = Inl (fst (parse_object sh obj))"
    by (simp only: safeParse_cases if_False)
  then have "snd (zodResolver sh obj) = parseErrorSchema [] (fst (parse_object sh obj))"
    by (simp add: zodResolver_def)
  then show ?thesis
    by (simp add: errorMessage_def map_of_parseErrorSchema find_parse_object [OF assms]
          split: list.splits)
qed

lemma distinct_contactSchema: "distinct (map fst contactSchema)"
  by (simp add: contactSchema_def)

lemmas builders =
  z_string_def z_number_def z_enum_def z_boolean_def string_min_def string_nonempty_def
  string_email_def string_regex_def number_min_def number_max_def refine_def

lemma fieldIssues_contact:
  "fieldIssues contactSchema d Name = fst (parse (ZodString [SMin 2 msg_name]) ([Name], d Name))"
  "fieldIssues contactSchema d Email = fst (parse (ZodString [SEmail msg_email]) ([Email], d Email))"
  "fieldIssues contactSchema d Phone =
     fst (parse (ZodString [SRegex False phoneRegex msg_phone]) ([Phone], d Phone))"
  "fieldIssues contactSchema d Age =
     fst (parse (ZodNumber \<lparr>invalid_type_error = Some msg_age_type, required_error = None\<rparr>
                  [NMin 18 msg_age_min, NMax 120 msg_age_max]) ([Age], d Age))"
  "fieldIssues contactSchema d Gender =
     fst (parse (ZodEnum [ascii ''male'', ascii ''female'', ascii ''other''] msg_gender)
            ([Gender], d Gender))"
  "fieldIssues contactSchema d InquiryType =
     fst (parse (ZodString [SMin 1 msg_inquiry]) ([InquiryType], d InquiryType))"
  "fieldIssues contactSchema d Message =
     fst (parse (ZodString [SMin 10 msg_message]) ([Message], d Message))"
  "fieldIssues contactSchema d Agree =
     fst (parse (ZodEffects ZodBoolean (\<lambda>val. val) msg_agree) ([Agree], d Agree))"
  by (simp_all add: fieldIssues_def contactSchema_def builders)

lemma errorMessage_contact:
  "errorMessage (snd (zodResolver contactSchema d)) k =
     (case fieldIssues contactSchema d k of [] \<Rightarrow> None | i # _ \<Rightarrow> Some (message i))"
  by (rule errorMessage_resolver [OF distinct_contactSchema])

lemma all_fields_contact:
  "(\<forall>(k, t)\<in>set contactSchema. fst (parse t ([k], d k)) = []) \<longleftrightarrow>
     (\<forall>k. fieldIssues contactSchema d k = [])"
proof
  assume "\<forall>(k, t)\<in>set contactSchema. fst (parse t ([k], d k)) = []"
  then show "\<forall>k. fieldIssues contactSchema d k = []"
    using fieldIssues_empty by blast
next
  assume a: "\<forall>k. fieldIssues contactSchema d k = []"
  have "fieldIssues contactSchema d Name = []" "fieldIssues contactSchema d Email = []"
    "fieldIssues contactSchema d Phone = []" "fieldIssues contactSchema d Age = []"
    "fieldIssues contactSchema d Gender = []" "fieldIssues contactSchema d InquiryType = []"
    "fieldIssues contactSchema d Message = []" "fieldIssues contactSchema d Agree = []"
    using a by blast+
  then show "\<forall>(k, t)\<in>set contactSchema. fst (parse t ([k], d k)) = []"
    unfolding fieldIssues_contact by (simp add: contactSchema_def builders)
qed

lemma finalObject_contact:
  assumes "\<forall>k. fieldIssues contactSchema d k = []"
  shows "finalObject (parse_fields contactSchema d) = d"
proof
  fix k
  obtain t where t: "map_of contactSchema k = Some t"
    by (cases k) (simp_all add: contactSchema_def)
  with assms have "fst (parse t ([k], d k)) = []"
    by (auto simp add: fieldIssues_def split: option.splits)
  then have "snd (parse t ([k], d k)) = OK (d k)" by (simp add: parse_OK_iff)
  then show "finalObject (parse_fields contactSchema d) k = d k"
    by (cases "parse t ([k], d k)") (simp add: finalObject_def map_of_parse_fields t)
qed

lemma safeParse_contact:
  "safeParse contactSchema d =
     (if \<forall>k. fieldIssues contactSchema d k = [] then Inr d
      else Inl (fst (parse_object contactSchema d)))"
  by (simp add: safeParse_cases all_fields_contact finalObject_contact)


section \<open>The outcome of each field\<close>

lemma age_outcome:
  "errorMessage (snd (zodResolver contactSchema d)) Age =
     (case d Age of
        JNum x \<Rightarrow>
          if x = NaN then Some msg_age_type
          else if num_lt x (Fin 18) then Some msg_age_min
          else if num_gt x (Fin 120) then Some msg_age_max
          else None
      | JUndefined \<Rightarrow> Some (ascii ''Required'')
      | _ \<Rightarrow> Some msg_age_type)"
  by (cases "d Age")
     (auto simp add: errorMessage_contact fieldIssues_contact checked_def invalid_type_issue_def
        customMap_def defaultErrorMap_def num_gt_def)

lemma string_min_issues:
  "fst (parse (ZodString [SMin n m]) ([k], v)) =
     (case v of
        JStr s \<Rightarrow> if length s < n then [\<lparr>code = too_small, path = [k], message = m\<rparr>] else []
      | _ \<Rightarrow> [\<lparr>code = invalid_type, path = [k], message = defaultErrorMap ''string'' v\<rparr>])"
  by (cases v) (simp_all add: checked_def invalid_type_issue_def)

lemma string_test_issues:
  "fst (parse (ZodString [SRegex ic r m]) ([k], v)) =
     (case v of
        JStr s \<Rightarrow> if regex_test ic r s then []
                  else [\<lparr>code = invalid_string, path = [k], message = m\<rparr>]
      | _ \<Rightarrow> [\<lparr>code = invalid_type, path = [k], message = defaultErrorMap ''string'' v\<rparr>])"
  "fst (parse (ZodString [SEmail m]) ([k], v)) =
     (case v of
        JStr s \<Rightarrow> if regex_test True emailRegex s then []
                  else [\<lparr>code = invalid_string, path = [k], message = m\<rparr>]
      | _ \<Rightarrow> [\<lparr>code = invalid_type, path = [k], message = defaultErrorMap ''string'' v\<rparr>])"
  by (cases v; simp add: checked_def invalid_type_issue_def)+

lemma in_range_18_120:
  "(x \<noteq> NaN \<and> \<not> num_lt x (Fin 18) \<and> \<not> num_gt x (Fin 120)) \<longleftrightarrow>
     (\<exists>q. x = Fin q \<and> 18 \<le> q \<and> q \<le> 120)"
  by (cases x) (auto simp add: num_gt_def)

lemma messages_differ:
  "ascii ''Required'' \<noteq> msg_age_type" "ascii ''Required'' \<noteq> msg_age_min"
  "ascii ''Required'' \<noteq> msg_age_max" "ascii ''Required'' \<noteq> msg_inquiry"
  "msg_age_type \<noteq> msg_age_min" "msg_age_type \<noteq> msg_age_max"
  by (simp_all add: ascii_def msg_age_type_def msg_age_min_def msg_age_max_def msg_inquiry_def)

lemma email_sample: "regex_test True emailRegex (ascii ''a@b.com'')"
  by code_simp

lemma email_bad: "\<not> regex_test True emailRegex (ascii ''not-an-email'')"
  by code_simp

lemma safeParse_fails:
  "fieldIssues contactSchema d k \<noteq> [] \<Longrightarrow> safeParse contactSchema d = Inl (fst (parse_object contactSchema d))"
  by (auto simp add: safeParse_contact)

lemma all_fields: "(\<forall>k. P k) \<longleftrightarrow>
  P Name \<and> P Email \<and> P Phone \<and> P Age \<and> P Gender \<and> P InquiryType \<and> P Message \<and> P Agree"
proof
  assume r: "P Name \<and> P Email \<and> P Phone \<and> P Age \<and> P Gender \<and> P InquiryType \<and> P Message \<and> P Agree"
  show "\<forall>k. P k"
  proof
    fix k show "P k" using r by (cases k) simp_all
  qed
qed simp

lemma field_ok:
  "fieldIssues contactSchema d Name = [] \<longleftrightarrow> (\<exists>s. d Name = JStr s \<and> 2 \<le> length s)"
  "fieldIssues contactSchema d Email = [] \<longleftrightarrow> (\<exists>s. d Email = JStr s \<and> regex_test True emailRegex s)"
  "fieldIssues contactSchema d Phone = [] \<longleftrightarrow> (\<exists>s. d Phone = JStr s \<and> regex_test False phoneRegex s)"
  "fieldIssues contactSchema d Age = [] \<longleftrightarrow> (\<exists>q. d Age = JNum (Fin q) \<and> 18 \<le> q \<and> q \<le> 120)"
  "fieldIssues contactSchema d Gender = [] \<longleftrightarrow>
     (\<exists>s. d Gender = JStr s \<and> s \<in> {ascii ''male'', ascii ''female'', ascii ''other''})"
  "fieldIssues contactSchema d InquiryType = [] \<longleftrightarrow> (\<exists>s. d InquiryType = JStr s \<and> s \<noteq> [])"
  "fieldIssues contactSchema d Message = [] \<longleftrightarrow> (\<exists>s. d Message = JStr s \<and> 10 \<le> length s)"
  "fieldIssues contactSchema d Agree = [] \<longleftrightarrow> d Agree = JBool True"
proof -
  show "fieldIssues contactSchema d Name = [] \<longleftrightarrow> (\<exists>s. d Name = JStr s \<and> 2 \<le> length s)"
    unfolding fieldIssues_contact string_min_issues by (cases "d Name") auto
  show "fieldIssues contactSchema d Email = [] \<longleftrightarrow> (\<exists>s. d Email = JStr s \<and> regex_test True emailRegex s)"
    unfolding fieldIssues_contact string_test_issues by (cases "d Email") auto
  show "fieldIssues contactSchema d Phone = [] \<longleftrightarrow> (\<exists>s. d Phone = JStr s \<and> regex_test False phoneRegex s)"
    unfolding fieldIssues_contact string_test_issues by (cases "d Phone") auto
  show "fieldIssues contactSchema d Age = [] \<longleftrightarrow> (\<exists>q. d Age = JNum (Fin q) \<and> 18 \<le> q \<and> q \<le> 120)"
    using in_range_18_120
    by (cases "d Age") (auto simp add: fieldIssues_contact checked_def)
  show "fieldIssues contactSchema d Gender = [] \<longleftrightarrow>
     (\<exists>s. d Gender = JStr s \<and> s \<in> {ascii ''male'', ascii ''female'', ascii ''other''})"
    by (cases "d Gender") (auto simp add: fieldIssues_contact)
  show "fieldIssues contactSchema d InquiryType = [] \<longleftrightarrow> (\<exists>s. d InquiryType = JStr s \<and> s \<noteq> [])"
    unfolding fieldIssues_contact string_min_issues by (cases "d InquiryType") auto
  show "fieldIssues contactSchema d Message = [] \<longleftrightarrow> (\<exists>s. d Message = JStr s \<and> 10 \<le> length s)"
    unfolding fieldIssues_contact string_min_issues by (cases "d Message") auto
  show "fieldIssues contactSchema d Agree = [] \<longleftrightarrow> d Agree = JBool True"
    by (cases "d Agree") (auto simp add: fieldIssues_contact)
qed

lemma safeParse_success_iff:
  "safeParse contactSchema d = Inr x \<longleftrightarrow>
     x = d \<and>
     (\<exists>s. d Name = JStr s \<and> 2 \<le> length s) \<and>
     (\<exists>s. d Email = JStr s \<and> regex_test True emailRegex s) \<and>
     (\<exists>s. d Phone = JStr s \<and> regex_test False phoneRegex s) \<and>
     (\<exists>q. d Age = JNum (Fin q) \<and> 18 \<le> q \<and> q \<le> 120) \<and>
     (\<exists>s. d Gender = JStr s \<and> s \<in> {ascii ''male'', ascii ''female'', ascii ''other''}) \<and>
     (\<exists>s. d InquiryType = JStr s \<and> s \<noteq> []) \<and>
     (\<exists>s. d Message = JStr s \<and> 10 \<le> length s) \<and>
     d Agree = JBool True"
proof -
  have "safeParse contactSchema d = Inr x \<longleftrightarrow> x = d \<and> (\<forall>k. fieldIssues contactSchema d k = [])"
    by (auto simp add: safeParse_contact)
  also have "(\<forall>k. fieldIssues contactSchema d k = []) \<longleftrightarrow>
     fieldIssues contactSchema d Name = [] \<and> fieldIssues contactSchema d Email = [] \<and>
     fieldIssues contactSchema d Phone = [] \<and> fieldIssues contactSchema d Age = [] \<and>
     fieldIssues contactSchema d Gender = [] \<and> fieldIssues contactSchema d InquiryType = [] \<and>
     fieldIssues contactSchema d Message = [] \<and> fieldIssues contactSchema d Agree = []"
    by (rule all_fields)
  finally show ?thesis by (simp only: field_ok)
qed

lemma sample_valid: "safeParse contactSchema sample = Inr sample"
  by (simp add: safeParse_success_iff sample_def email_sample phone_test) (simp add: ascii_def)

lemma inquiry_outcome:
  "errorMessage (snd (zodResolver contactSchema d)) InquiryType =
     (case d InquiryType of
        JStr s \<Rightarrow> if s = [] then Some msg_inquiry else None
      | _ \<Rightarrow> Some (defaultErrorMap ''string'' (d InquiryType)))"
  unfolding errorMessage_contact fieldIssues_contact string_min_issues
  by (cases "d InquiryType") auto

section \<open>Submitting the form\<close>

lemma validateField_sinks:
  "console (validateField f st) = console st" "alerts (validateField f st) = alerts st"
  by (simp_all add: validateField_def split: prod.splits)

lemma issues_nonempty:
  assumes "safeParse contactSchema d = Inl issues"
  shows "issues \<noteq> []"
proof -
  from assms obtain k where k: "fieldIssues contactSchema d k \<noteq> []"
    by (auto simp add: safeParse_contact split: if_splits)
  then obtain t where t: "map_of contactSchema k = Some t" "fst (parse t ([k], d k)) \<noteq> []"
    by (auto simp add: fieldIssues_def split: option.splits)
  then have "(k, t) \<in> set contactSchema" by (simp add: map_of_SomeD)
  with t have "fst (parse_object contactSchema d) \<noteq> []"
    unfolding issues_parse_object by (auto intro!: bexI [of _ "(k, t)"])
  with safeParse_Inl [OF assms] show ?thesis by simp
qed

lemma html_email_sample: "regex_test False htmlEmailRegex (ascii ''a@b.com'')"
  by code_simp

lemma html_email_bad: "\<not> regex_test False htmlEmailRegex (ascii ''not-an-email'')"
  by code_simp

lemma checkValidity_sample: "checkValidity (st\<lparr>formValues := sample\<rparr>)"
  by (simp add: checkValidity_def typeMismatch_def stepMismatch_def sample_def html_email_sample)

lemma checkValidity_emptyForm: "checkValidity emptyForm"
  by (simp add: checkValidity_def typeMismatch_def stepMismatch_def emptyForm_def)

lemma submit_valid:
  assumes "checkValidity st" and "safeParse contactSchema (formValues st) = Inr data"
  shows "step Submit st =
     st\<lparr>errors := [], isSubmitted := True,
        console := console st @ [(ascii ''Form data:'', data)],
        alerts := alerts st @ [msg_sent]\<rparr>"
  using assms by (simp add: handleSubmit_def zodResolver_def onSubmit_def)

lemma submit_invalid:
  assumes "checkValidity st" and "safeParse contactSchema (formValues st) = Inl issues"
  shows "step Submit st =
      st\<lparr>errors := snd (zodResolver contactSchema (formValues st)), isSubmitted := True\<rparr>"
    and "snd (zodResolver contactSchema (formValues st)) = parseErrorSchema [] issues"
    and "parseErrorSchema [] issues \<noteq> []"
proof -
  show ne: "parseErrorSchema [] issues \<noteq> []"
    using issues_nonempty [OF assms(2)] by (simp add: parseErrorSchema_Nil_iff)
  show r: "snd (zodResolver contactSchema (formValues st)) = parseErrorSchema [] issues"
    using assms(2) by (simp add: zodResolver_def)
  show "step Submit st =
      st\<lparr>errors := snd (zodResolver contactSchema (formValues st)), isSubmitted := True\<rparr>"
    using assms ne by (simp add: handleSubmit_def zodResolver_def)
qed

lemma submit_invalid_sinks:
  assumes "safeParse contactSchema (formValues st) = Inl issues"
  shows "console (step Submit st) = console st" "alerts (step Submit st) = alerts st"
proof -
  have "console (step Submit st) = console st \<and> alerts (step Submit st) = alerts st"
  proof (cases "checkValidity st")
    case True
    show ?thesis by (simp only: submit_invalid(1) [OF True assms]) simp
  next
    case False
    then show ?thesis by simp
  qed
  then show "console (step Submit st) = console st" "alerts (step Submit st) = alerts st"
    by simp_all
qed

lemma failing_field:
  assumes "safeParse contactSchema d = Inl issues"
  shows "\<exists>f. errorMessage (snd (zodResolver contactSchema d)) f \<noteq> None"
proof -
  from assms obtain k where "fieldIssues contactSchema d k \<noteq> []"
    by (auto simp add: safeParse_contact split: if_splits)
  then have "errorMessage (snd (zodResolver contactSchema d)) k \<noteq> None"
    by (simp add: errorMessage_contact split: list.splits)
  then show ?thesis by blast
qed

lemma step_sinks:
  "(console (step ev st) = console st \<and> alerts (step ev st) = alerts st) \<or>
   (ev = Submit \<and> checkValidity st \<and>
    safeParse contactSchema (formValues st) = Inr (formValues st) \<and>
    console (step ev st) = console st @ [(ascii ''Form data:'', formValues st)] \<and>
    alerts (step ev st) = alerts st @ [msg_sent])"
proof (cases ev)
  case (Change f v)
  then show ?thesis by (simp add: validateField_sinks Let_def)
next
  case BadInput
  then show ?thesis by (simp add: validateField_sinks Let_def)
next
  case (Blur f)
  then show ?thesis by (simp add: validateField_sinks)
next
  case Submit
  show ?thesis
  proof (cases "checkValidity st")
    case False
    then show ?thesis using Submit by simp
  next
    case True
    show ?thesis
    proof (cases "safeParse contactSchema (formValues st)")
      case (Inl issues)
      then show ?thesis using Submit submit_invalid_sinks [OF Inl] by simp
    next
      case (Inr data)
      then have "data = formValues st" by (simp add: safeParse_success_iff)
      with Inr True show ?thesis using Submit submit_valid [OF True Inr] by simp
    qed
  qed
qed

lemma run_console:
  "\<exists>new. console (fold step evs st) = console st @ new \<and>
     (\<forall>e\<in>set new. fst e = ascii ''Form data:'' \<and> safeParse contactSchema (snd e) = Inr (snd e))"
proof (induction evs arbitrary: st)
  case Nil
  then show ?case by simp
next
  case (Cons ev evs)
  from Cons.IH [of "step ev st"] obtain new where
    new: "console (fold step evs (step ev st)) = console (step ev st) @ new"
      "\<forall>e\<in>set new. fst e = ascii ''Form data:'' \<and> safeParse contactSchema (snd e) = Inr (snd e)"
    by blast
  from step_sinks [of ev st] show ?case
  proof
    assume "console (step ev st) = console st \<and> alerts (step ev st) = alerts st"
    with new show ?thesis by (auto simp del: step.simps)
  next
    assume a: "ev = Submit \<and> checkValidity st \<and>
      safeParse contactSchema (formValues st) = Inr (formValues st) \<and>
      console (step ev st) = console st @ [(ascii ''Form data:'', formValues st)] \<and>
      alerts (step ev st) = alerts st @ [msg_sent]"
    then have "console (step ev st) = console st @ [(ascii ''Form data:'', formValues st)]"
      by blast
    then have "console (fold step (ev # evs) st) =
        console st @ ((ascii ''Form data:'', formValues st) # new)"
      using new(1) by (simp del: step.simps)
    moreover have "\<forall>e\<in>set ((ascii ''Form data:'', formValues st) # new).
        fst e = ascii ''Form data:'' \<and> safeParse contactSchema (snd e) = Inr (snd e)"
      using a new by simp
    ultimately show ?thesis by blast
  qed
qed

lemma floor_half: "\<lfloor>51 / 2 :: rat\<rfloor> = 25"
  by (rule floor_unique) simp_all

section \<open>One failing field\<close>

lemma issues_contact:
  "fst (parse_object contactSchema d) =
     fieldIssues contactSchema d Name @ fieldIssues contactSchema d Email @
     fieldIssues contactSchema d Phone @ fieldIssues contactSchema d Age @
     fieldIssues contactSchema d Gender @ fieldIssues contactSchema d InquiryType @
     fieldIssues contactSchema d Message @ fieldIssues contactSchema d Agree"
  by (simp add: issues_parse_object contactSchema_def fieldIssues_def)

lemma fieldIssues_upd_other:
  "k \<noteq> f \<Longrightarrow> fieldIssues sh (d(f := v)) k = fieldIssues sh d k"
  by (simp add: fieldIssues_def split: option.splits)

lemma one_field_fails:
  assumes "safeParse contactSchema d = Inr d"
    and "fieldIssues contactSchema (d(f := v)) f = [i]"
  shows "snd (zodResolver contactSchema (d(f := v))) = [(path i, message i, code i)]"
proof -
  from assms(1) have ok: "\<And>k. fieldIssues contactSchema d k = []"
    by (simp add: safeParse_contact split: if_splits)
  have other: "\<And>k. k \<noteq> f \<Longrightarrow> fieldIssues contactSchema (d(f := v)) k = []"
    by (simp add: fieldIssues_upd_other ok)
  have "fst (parse_object contactSchema (d(f := v))) = [i]"
    unfolding issues_contact using assms(2) other by (cases f) simp_all
  moreover have "safeParse contactSchema (d(f := v)) =
      Inl (fst (parse_object contactSchema (d(f := v))))"
    using assms(2) safeParse_fails [of "d(f := v)" f] by simp
  ultimately show ?thesis by (simp add: zodResolver_def)
qed

section \<open>The properties\<close>

text \<open>
  C1 (as the schema has it). The inquiry type passes if and only if its value is a
  non-empty string, whichever string it is: the schema does not compare it with the
  options of the select. The empty string gets the inquiry-type message. A value that
  is not a string gets zod's message for a wrong type, which is \<open>Required\<close> when the
  value is absent.
\<close>

theorem C1_inquiryType_nonempty_string:
  "(errorMessage (snd (zodResolver contactSchema d)) InquiryType = None \<longleftrightarrow>
      (\<exists>s. d InquiryType = JStr s \<and> s \<noteq> [])) \<and>
   (d InquiryType = JStr [] \<longrightarrow>
      errorMessage (snd (zodResolver contactSchema d)) InquiryType = Some msg_inquiry) \<and>
   (d InquiryType = JUndefined \<longrightarrow>
      errorMessage (snd (zodResolver contactSchema d)) InquiryType = Some (ascii ''Required'')) \<and>
   ((\<forall>s. d InquiryType \<noteq> JStr s) \<longrightarrow>
      errorMessage (snd (zodResolver contactSchema d)) InquiryType =
        Some (defaultErrorMap ''string'' (d InquiryType)))"
  by (cases "d InquiryType") (simp_all add: inquiry_outcome defaultErrorMap_def)

theorem C1_witness:
  "errorMessage (snd (zodResolver contactSchema sample)) InquiryType = None \<and>
   errorMessage (snd (zodResolver contactSchema (sample(InquiryType := JStr [])))) InquiryType
     = Some msg_inquiry \<and>
   errorMessage (snd (zodResolver contactSchema (sample(InquiryType := JNull)))) InquiryType
     = Some (ascii ''Expected string, received null'')"
  using C1_inquiryType_nonempty_string [of sample]
    C1_inquiryType_nonempty_string [of "sample(InquiryType := JStr [])"]
    C1_inquiryType_nonempty_string [of "sample(InquiryType := JNull)"]
  by (simp add: sample_def ascii_def defaultErrorMap_def)

text \<open>
  The string \<open>xyz\<close> is none of the three options and passes; an absent value is rejected
  with \<open>Required\<close>, which is not the inquiry-type message.
\<close>

theorem C1_counterexample:
  "errorMessage (snd (zodResolver contactSchema (sample(InquiryType := JStr (ascii ''xyz'')))))
      InquiryType = None \<and>
   ascii ''xyz'' \<notin> {ascii ''general'', ascii ''support'', ascii ''feedback''} \<and>
   errorMessage (snd (zodResolver contactSchema (sample(InquiryType := JUndefined))))
      InquiryType = Some (ascii ''Required'') \<and>
   ascii ''Required'' \<noteq> msg_inquiry"
  by (simp add: inquiry_outcome messages_differ defaultErrorMap_def) (simp add: ascii_def)

text \<open>
  C2 (as the schema has it). The age passes if and only if its value is a number from 18
  to 120, both included; the number need not be an integer. NaN, the infinities and every
  value that is not a number are rejected.
\<close>

theorem C2_age_number_in_range:
  "errorMessage (snd (zodResolver contactSchema d)) Age = None \<longleftrightarrow>
     (\<exists>q. d Age = JNum (Fin q) \<and> 18 \<le> q \<and> q \<le> 120)"
proof (cases "d Age")
  case (JNum x)
  then show ?thesis using in_range_18_120 [of x]
    by (auto simp add: age_outcome)
qed (simp_all add: age_outcome)

theorem C2_witness:
  "errorMessage (snd (zodResolver contactSchema sample)) Age = None \<and>
   errorMessage (snd (zodResolver contactSchema (sample(Age := JNum (Fin 18))))) Age = None \<and>
   errorMessage (snd (zodResolver contactSchema (sample(Age := JNum (Fin 120))))) Age = None \<and>
   errorMessage (snd (zodResolver contactSchema (sample(Age := JNum (Fin (241 / 2)))))) Age \<noteq> None \<and>
   errorMessage (snd (zodResolver contactSchema (sample(Age := JNum (Fin 17))))) Age \<noteq> None \<and>
   errorMessage (snd (zodResolver contactSchema (sample(Age := JNum PosInf)))) Age \<noteq> None"
  using C2_age_number_in_range [of sample]
    C2_age_number_in_range [of "sample(Age := JNum (Fin 18))"]
    C2_age_number_in_range [of "sample(Age := JNum (Fin 120))"]
    C2_age_number_in_range [of "sample(Age := JNum (Fin (241 / 2)))"]
    C2_age_number_in_range [of "sample(Age := JNum (Fin 17))"]
    C2_age_number_in_range [of "sample(Age := JNum PosInf)"]
  by (simp add: sample_def)

text \<open>The age 25.5 is not an integer and passes.\<close>

theorem C2_counterexample:
  "errorMessage (snd (zodResolver contactSchema (sample(Age := JNum (Fin (51 / 2)))))) Age = None \<and>
   (51 / 2 :: rat) \<notin> \<int>"
  by (simp add: age_outcome num_gt_def)

text \<open>
  C3 (as the form has it). The submit handler, whose two sinks are the console and the
  alert, runs only on a submit attempt whose values pass the validation of the whole
  record: a step that changes a sink is such an attempt, one that the browser's check of
  the controls lets through. An attempt that is let through with valid values calls the
  handler once, with the validated record. An attempt whose values fail the validation
  never calls it. When the browser lets that attempt through, the errors on display
  become those of the resolver: every field shows the first message of its own issues,
  and at least one field shows a message. When the browser's check of the e-mail and
  number inputs blocks an attempt, no submit event fires and the form is left as it is,
  errors included. Along every sequence of events, the handler only ever received
  records that pass the validation.
\<close>

theorem C3_handler_only_on_valid_submit:
  "(console (step ev st) \<noteq> console st \<or> alerts (step ev st) \<noteq> alerts st \<longrightarrow>
      ev = Submit \<and> checkValidity st \<and>
      safeParse contactSchema (formValues st) = Inr (formValues st)) \<and>
   (checkValidity st \<and> safeParse contactSchema (formValues st) = Inr data \<longrightarrow>
      console (step Submit st) = console st @ [(ascii ''Form data:'', data)] \<and>
      alerts (step Submit st) = alerts st @ [msg_sent]) \<and>
   (safeParse contactSchema (formValues st) = Inl issues \<longrightarrow>
      console (step Submit st) = console st \<and> alerts (step Submit st) = alerts st) \<and>
   (checkValidity st \<and> safeParse contactSchema (formValues st) = Inl issues \<longrightarrow>
      errors (step Submit st) = parseErrorSchema [] issues \<and>
      (\<forall>f. errorMessage (errors (step Submit st)) f =
         (case fieldIssues contactSchema (formValues st) f of
            [] \<Rightarrow> None | i # _ \<Rightarrow> Some (message i))) \<and>
      (\<exists>f. errorMessage (errors (step Submit st)) f \<noteq> None)) \<and>
   (\<not> checkValidity st \<longrightarrow> step Submit st = st) \<and>
   (\<exists>new. console (fold step evs st) = console st @ new \<and>
      (\<forall>e\<in>set new. safeParse contactSchema (snd e) = Inr (snd e)))"
proof (intro conjI impI allI)
  assume "console (step ev st) \<noteq> console st \<or> alerts (step ev st) \<noteq> alerts st"
  then show "ev = Submit" "checkValidity st"
    "safeParse contactSchema (formValues st) = Inr (formValues st)"
    using step_sinks [of ev st] by auto
next
  assume "checkValidity st \<and> safeParse contactSchema (formValues st) = Inr data"
  then have c: "checkValidity st" and v: "safeParse contactSchema (formValues st) = Inr data"
    by simp_all
  show "console (step Submit st) = console st @ [(ascii ''Form data:'', data)]"
    "alerts (step Submit st) = alerts st @ [msg_sent]"
    by (simp_all only: submit_valid [OF c v]) simp_all
next
  assume i: "safeParse contactSchema (formValues st) = Inl issues"
  show "console (step Submit st) = console st" "alerts (step Submit st) = alerts st"
    by (rule submit_invalid_sinks [OF i])+
next
  assume "checkValidity st \<and> safeParse contactSchema (formValues st) = Inl issues"
  then have c: "checkValidity st" and i: "safeParse contactSchema (formValues st) = Inl issues"
    by simp_all
  have e: "errors (step Submit st) = snd (zodResolver contactSchema (formValues st))"
    by (simp only: submit_invalid(1) [OF c i]) simp
  show "errors (step Submit st) = parseErrorSchema [] issues"
    by (simp only: e submit_invalid(2) [OF c i])
  show "\<exists>f. errorMessage (errors (step Submit st)) f \<noteq> None"
    unfolding e by (rule failing_field [OF i])
  fix f
  show "errorMessage (errors (step Submit st)) f =
         (case fieldIssues contactSchema (formValues st) f of
            [] \<Rightarrow> None | i # _ \<Rightarrow> Some (message i))"
    unfolding e by (rule errorMessage_contact)
next
  assume "\<not> checkValidity st"
  then show "step Submit st = st" by simp
next
  show "\<exists>new. console (fold step evs st) = console st @ new \<and>
      (\<forall>e\<in>set new. safeParse contactSchema (snd e) = Inr (snd e))"
    using run_console [of evs st] by blast
qed

theorem C3_witness:
  "console (step Submit (emptyForm\<lparr>formValues := sample\<rparr>)) = [(ascii ''Form data:'', sample)] \<and>
   alerts (step Submit (emptyForm\<lparr>formValues := sample\<rparr>)) = [msg_sent] \<and>
   console (step Submit emptyForm) = [] \<and> alerts (step Submit emptyForm) = [] \<and>
   errorMessage (errors (step Submit emptyForm)) Name = Some msg_name \<and>
   errorMessage (errors (step Submit emptyForm)) Age = Some msg_age_type \<and>
   step Submit (emptyForm\<lparr>formValues := sample(Age := JNum (Fin (51 / 2)))\<rparr>) =
     emptyForm\<lparr>formValues := sample(Age := JNum (Fin (51 / 2)))\<rparr> \<and>
   console (step (Blur Name) emptyForm) = []"
proof -
  have bad: "safeParse contactSchema (formValues emptyForm) =
      Inl (fst (parse_object contactSchema (formValues emptyForm)))"
    by (rule safeParse_fails [of _ Agree]) (simp add: field_ok emptyForm_def)
  have good: "safeParse contactSchema (formValues (emptyForm\<lparr>formValues := sample\<rparr>)) = Inr sample"
    by (simp add: sample_valid)
  have e: "console emptyForm = []" "alerts emptyForm = []"
    by (simp_all add: emptyForm_def)
  from C3_handler_only_on_valid_submit
         [of Submit "emptyForm\<lparr>formValues := sample\<rparr>" sample, THEN conjunct2, THEN conjunct1]
       good e checkValidity_sample [of emptyForm]
  have 1: "console (step Submit (emptyForm\<lparr>formValues := sample\<rparr>)) = [(ascii ''Form data:'', sample)]"
      "alerts (step Submit (emptyForm\<lparr>formValues := sample\<rparr>)) = [msg_sent]"
    by (simp_all del: step.simps)
  from C3_handler_only_on_valid_submit
         [of Submit emptyForm _ "fst (parse_object contactSchema (formValues emptyForm))",
          THEN conjunct2, THEN conjunct2, THEN conjunct1]
       bad e
  have 2: "console (step Submit emptyForm) = []" "alerts (step Submit emptyForm) = []"
    by (simp_all del: step.simps)
  from C3_handler_only_on_valid_submit
         [of Submit emptyForm _ "fst (parse_object contactSchema (formValues emptyForm))",
          THEN conjunct2, THEN conjunct2, THEN conjunct2, THEN conjunct1]
       bad checkValidity_emptyForm
  have shown: "\<forall>f. errorMessage (errors (step Submit emptyForm)) f =
         (case fieldIssues contactSchema (formValues emptyForm) f of
            [] \<Rightarrow> None | i # _ \<Rightarrow> Some (message i))"
    by blast
  have 3: "errorMessage (errors (step Submit emptyForm)) Name = Some msg_name"
    "errorMessage (errors (step Submit emptyForm)) Age = Some msg_age_type"
    unfolding shown [rule_format] fieldIssues_contact string_min_issues
    by (simp_all add: emptyForm_def invalid_type_issue_def customMap_def)
  have "\<not> checkValidity (emptyForm\<lparr>formValues := sample(Age := JNum (Fin (51 / 2)))\<rparr>)"
    by (simp add: checkValidity_def stepMismatch_def floor_half)
  with C3_handler_only_on_valid_submit
         [of Submit "emptyForm\<lparr>formValues := sample(Age := JNum (Fin (51 / 2)))\<rparr>",
          THEN conjunct2, THEN conjunct2, THEN conjunct2, THEN conjunct2, THEN conjunct1]
  have 4: "step Submit (emptyForm\<lparr>formValues := sample(Age := JNum (Fin (51 / 2)))\<rparr>) =
     emptyForm\<lparr>formValues := sample(Age := JNum (Fin (51 / 2)))\<rparr>"
    by (simp del: step.simps)
  from C3_handler_only_on_valid_submit [of "Blur Name" emptyForm, THEN conjunct1] e
  have 5: "console (step (Blur Name) emptyForm) = []"
    by (auto simp del: step.simps)
  from 1 2 3 4 5 show ?thesis by (simp del: step.simps)
qed

text \<open>
  A submit attempt on the example record with the e-mail \<open>not-an-email\<close>: the validation
  fails, the browser blocks the attempt, and the errors stay empty, so no message is
  shown at the e-mail.
\<close>

theorem C3_counterexample:
  "isl (safeParse contactSchema
         (formValues (emptyForm\<lparr>formValues := sample(Email := JStr (ascii ''not-an-email''))\<rparr>))) \<and>
   errors (step Submit (emptyForm\<lparr>formValues := sample(Email := JStr (ascii ''not-an-email''))\<rparr>))
     = [] \<and>
   errorMessage
     (errors (step Submit (emptyForm\<lparr>formValues := sample(Email := JStr (ascii ''not-an-email''))\<rparr>)))
     Email = None"
proof -
  let ?st = "emptyForm\<lparr>formValues := sample(Email := JStr (ascii ''not-an-email''))\<rparr>"
  have "fieldIssues contactSchema (formValues ?st) Email \<noteq> []"
    by (simp add: field_ok email_bad)
  then have a: "isl (safeParse contactSchema (formValues ?st))"
    by (simp add: safeParse_fails)
  have "\<not> checkValidity ?st"
    using html_email_bad by (simp add: checkValidity_def typeMismatch_def) (simp add: ascii_def)
  then have "step Submit ?st = ?st" by simp
  then have "errors (step Submit ?st) = []" by (simp add: emptyForm_def)
  with a show ?thesis by (simp add: errorMessage_def del: step.simps)
qed

text \<open>
  C4. For every phone string, the phone check passes if and only if the whole string is
  exactly 10 or exactly 11 ASCII digits: the pattern matches exactly those strings, and
  every other string gets the phone message. The match is on the full string: a longer
  string that contains ten digits, or ends in a line break, fails.
\<close>

theorem C4_phone_ten_or_eleven_digits:
  "regex_test False phoneRegex s =
     ((length s = 10 \<or> length s = 11) \<and> (\<forall>c\<in>set s. 0x30 \<le> c \<and> c \<le> 0x39)) \<and>
   errorMessage (snd (zodResolver contactSchema (d(Phone := JStr s)))) Phone =
     (if (length s = 10 \<or> length s = 11) \<and> (\<forall>c\<in>set s. 0x30 \<le> c \<and> c \<le> 0x39)
      then None else Some msg_phone)"
proof -
  have "fieldIssues contactSchema (d(Phone := JStr s)) Phone =
      (if regex_test False phoneRegex s then []
       else [\<lparr>code = invalid_string, path = [Phone], message = msg_phone\<rparr>])"
    by (simp add: fieldIssues_contact checked_def)
  then show ?thesis
    by (simp add: errorMessage_contact phone_test)
qed

theorem C4_phone_witness:
  "errorMessage (snd (zodResolver contactSchema (sample(Phone := JStr (ascii ''0901234567''))))) Phone = None \<and>
   errorMessage (snd (zodResolver contactSchema (sample(Phone := JStr (ascii ''09012345678''))))) Phone = None \<and>
   errorMessage (snd (zodResolver contactSchema (sample(Phone := JStr (ascii ''090-1234-5678''))))) Phone = Some msg_phone \<and>
   errorMessage (snd (zodResolver contactSchema (sample(Phone := JStr (ascii ''09012345678'' @ [0x0A]))))) Phone = Some msg_phone \<and>
   errorMessage (snd (zodResolver contactSchema (sample(Phone := JStr (ascii ''090123456789''))))) Phone = Some msg_phone"
  using C4_phone_ten_or_eleven_digits [of "ascii ''0901234567''" sample]
    C4_phone_ten_or_eleven_digits [of "ascii ''09012345678''" sample]
    C4_phone_ten_or_eleven_digits [of "ascii ''090-1234-5678''" sample]
    C4_phone_ten_or_eleven_digits [of "ascii ''09012345678'' @ [0x0A]" sample]
    C4_phone_ten_or_eleven_digits [of "ascii ''090123456789''" sample]
  by (simp add: ascii_def)

text \<open>
  C5. A record whose \<open>agree\<close> is false fails the validation, whatever its other fields
  are. A record whose \<open>agree\<close> is true and whose seven other fields each satisfy the
  constraint of the schema passes, and the validated record is the record itself.
\<close>

theorem C5_agree_must_be_true:
  "(d Agree = JBool False \<longrightarrow> isl (safeParse contactSchema d)) \<and>
   ((\<exists>s. d Name = JStr s \<and> 2 \<le> length s) \<and>
    (\<exists>s. d Email = JStr s \<and> regex_test True emailRegex s) \<and>
    (\<exists>s. d Phone = JStr s \<and> (length s = 10 \<or> length s = 11) \<and>
         (\<forall>c\<in>set s. 0x30 \<le> c \<and> c \<le> 0x39)) \<and>
    (\<exists>q. d Age = JNum (Fin q) \<and> 18 \<le> q \<and> q \<le> 120) \<and>
    (\<exists>s. d Gender = JStr s \<and> s \<in> {ascii ''male'', ascii ''female'', ascii ''other''}) \<and>
    (\<exists>s. d InquiryType = JStr s \<and> s \<noteq> []) \<and>
    (\<exists>s. d Message = JStr s \<and> 10 \<le> length s) \<and>
    d Agree = JBool True
    \<longrightarrow> safeParse contactSchema d = Inr d)"
proof (intro conjI impI)
  assume "d Agree = JBool False"
  then have "fieldIssues contactSchema d Agree \<noteq> []"
    by (simp add: field_ok)
  then show "isl (safeParse contactSchema d)"
    by (simp add: safeParse_fails)
next
  assume "(\<exists>s. d Name = JStr s \<and> 2 \<le> length s) \<and>
    (\<exists>s. d Email = JStr s \<and> regex_test True emailRegex s) \<and>
    (\<exists>s. d Phone = JStr s \<and> (length s = 10 \<or> length s = 11) \<and>
         (\<forall>c\<in>set s. 0x30 \<le> c \<and> c \<le> 0x39)) \<and>
    (\<exists>q. d Age = JNum (Fin q) \<and> 18 \<le> q \<and> q \<le> 120) \<and>
    (\<exists>s. d Gender = JStr s \<and> s \<in> {ascii ''male'', ascii ''female'', ascii ''other''}) \<and>
    (\<exists>s. d InquiryType = JStr s \<and> s \<noteq> []) \<and>
    (\<exists>s. d Message = JStr s \<and> 10 \<le> length s) \<and>
    d Agree = JBool True"
  then show "safeParse contactSchema d = Inr d"
    by (simp add: safeParse_success_iff phone_test)
qed

theorem C5_witness:
  "isl (safeParse contactSchema (sample(Agree := JBool False))) \<and>
   safeParse contactSchema sample = Inr sample"
proof -
  have "(sample(Agree := JBool False)) Agree = JBool False" by simp
  then have a: "isl (safeParse contactSchema (sample(Agree := JBool False)))"
    using C5_agree_must_be_true [of "sample(Agree := JBool False)"] by blast
  have "safeParse contactSchema sample = Inr sample"
    using C5_agree_must_be_true [of sample] email_sample
    by (simp add: sample_def) (simp add: ascii_def)
  with a show ?thesis by simp
qed

text \<open>
  C6 (as the schema has it). When the age is not a number (a value of another type, or
  NaN), the age never gets a range message. Its message is the type-error message of the
  age, except for an absent value, which gets zod's \<open>Required\<close>: the schema gives
  \<open>invalid_type_error\<close> and no \<open>required_error\<close>.
\<close>

theorem C6_non_numeric_age:
  "getParsedType (d Age) \<noteq> T_number \<Longrightarrow>
     errorMessage (snd (zodResolver contactSchema d)) Age =
       Some (if d Age = JUndefined then ascii ''Required'' else msg_age_type) \<and>
     errorMessage (snd (zodResolver contactSchema d)) Age \<noteq> Some msg_age_min \<and>
     errorMessage (snd (zodResolver contactSchema d)) Age \<noteq> Some msg_age_max"
  using messages_differ
  by (cases "d Age") (auto simp add: age_outcome split: if_splits)

theorem C6_witness:
  "getParsedType ((sample(Age := JStr (ascii ''abc''))) Age) \<noteq> T_number \<and>
   errorMessage (snd (zodResolver contactSchema (sample(Age := JStr (ascii ''abc''))))) Age
     = Some msg_age_type \<and>
   errorMessage (snd (zodResolver contactSchema (sample(Age := JNull)))) Age = Some msg_age_type \<and>
   errorMessage (snd (zodResolver contactSchema (sample(Age := JNum NaN)))) Age = Some msg_age_type \<and>
   errorMessage (snd (zodResolver contactSchema (sample(Age := JUndefined)))) Age
     = Some (ascii ''Required'')"
  using C6_non_numeric_age [of "sample(Age := JStr (ascii ''abc''))"]
    C6_non_numeric_age [of "sample(Age := JNull)"]
    C6_non_numeric_age [of "sample(Age := JNum NaN)"]
    C6_non_numeric_age [of "sample(Age := JUndefined)"]
  by simp

text \<open>An absent age is not numeric and its message is not the type-error message.\<close>

theorem C6_counterexample:
  "getParsedType ((sample(Age := JUndefined)) Age) \<noteq> T_number \<and>
   errorMessage (snd (zodResolver contactSchema (sample(Age := JUndefined)))) Age
     = Some (ascii ''Required'') \<and>
   ascii ''Required'' \<noteq> msg_age_type"
  by (simp add: age_outcome messages_differ)

text \<open>
  C7. The checks of the fields are independent. Two records with the same value at a
  field get the same outcome at that field: the first message of the issues that the
  schema of that field raises on that value, whatever the other fields hold. So a valid
  record whose age is changed to 15 fails on the age only, with the under-18 message, and
  a valid record whose e-mail is changed to \<open>not-an-email\<close> fails on the e-mail only; with
  both changes, both messages are collected.
\<close>

theorem C7_fields_are_independent:
  "(d1 k = d2 k \<longrightarrow>
      errorMessage (snd (zodResolver contactSchema d1)) k =
      errorMessage (snd (zodResolver contactSchema d2)) k) \<and>
   errorMessage (snd (zodResolver contactSchema d)) k =
     (case fieldIssues contactSchema d k of [] \<Rightarrow> None | i # _ \<Rightarrow> Some (message i)) \<and>
   (safeParse contactSchema d = Inr d \<longrightarrow>
      snd (zodResolver contactSchema (d(Age := JNum (Fin 15)))) =
        [([Age], msg_age_min, too_small)] \<and>
      snd (zodResolver contactSchema (d(Email := JStr (ascii ''not-an-email'')))) =
        [([Email], msg_email, invalid_string)]) \<and>
   snd (zodResolver contactSchema
          (sample(Age := JNum (Fin 15), Email := JStr (ascii ''not-an-email'')))) =
     [([Email], msg_email, invalid_string), ([Age], msg_age_min, too_small)]"
proof -
  have indep: "d1 k = d2 k \<longrightarrow> fieldIssues contactSchema d1 k = fieldIssues contactSchema d2 k"
    by (simp add: fieldIssues_def split: option.splits)
  have a: "fieldIssues contactSchema (d(Age := JNum (Fin 15))) Age =
      [\<lparr>code = too_small, path = [Age], message = msg_age_min\<rparr>]"
    by (simp add: fieldIssues_contact checked_def num_gt_def)
  have b: "fieldIssues contactSchema (d(Email := JStr (ascii ''not-an-email''))) Email =
      [\<lparr>code = invalid_string, path = [Email], message = msg_email\<rparr>]"
    unfolding fieldIssues_contact string_test_issues by (simp add: email_bad)
  have c: "snd (zodResolver contactSchema
          (sample(Age := JNum (Fin 15), Email := JStr (ascii ''not-an-email'')))) =
     [([Email], msg_email, invalid_string), ([Age], msg_age_min, too_small)]"
    by code_simp
  show ?thesis
    using indep c one_field_fails [OF _ a] one_field_fails [OF _ b]
    by (simp add: errorMessage_contact)
qed

theorem C7_witness:
  "errorMessage (snd (zodResolver contactSchema (sample(Age := JNum (Fin 15))))) Email =
     errorMessage (snd (zodResolver contactSchema sample)) Email \<and>
   snd (zodResolver contactSchema (sample(Age := JNum (Fin 15)))) =
     [([Age], msg_age_min, too_small)] \<and>
   snd (zodResolver contactSchema (sample(Email := JStr (ascii ''not-an-email'')))) =
     [([Email], msg_email, invalid_string)]"
  using C7_fields_are_independent [of "sample(Age := JNum (Fin 15))" Email sample sample, THEN conjunct1]
    C7_fields_are_independent [of sample Email sample sample, THEN conjunct2, THEN conjunct2, THEN conjunct1]
    sample_valid
  by simp

text \<open>
  C8. The record of the example passes the validation of the whole record, and on submit
  the handler logs exactly this record and raises the alert.
\<close>

theorem C8_sample_record_is_forwarded:
  "safeParse contactSchema sample = Inr sample \<and>
   step Submit (st\<lparr>formValues := sample\<rparr>) =
     st\<lparr>formValues := sample, errors := [], isSubmitted := True,
        console := console st @ [(ascii ''Form data:'', sample)],
        alerts := alerts st @ [msg_sent]\<rparr>"
  using checkValidity_sample [of st]
  by (simp add: sample_valid handleSubmit_def zodResolver_def onSubmit_def)

theorem C8_witness:
  "console (step Submit (emptyForm\<lparr>formValues := sample\<rparr>)) = [(ascii ''Form data:'', sample)]"
  using C8_sample_record_is_forwarded [of emptyForm] by (simp add: emptyForm_def)

text \<open>
  C9. The length checks count the raw code units, without trimming: a name of two spaces
  and a message of ten spaces pass, and in general the name passes exactly from length 2
  on and the message exactly from length 10 on, whatever the code units are.
\<close>

theorem C9_length_counts_raw_code_units:
  "errorMessage (snd (zodResolver contactSchema (d(Name := JStr [0x20, 0x20])))) Name = None \<and>
   errorMessage (snd (zodResolver contactSchema (d(Message := JStr (replicate 10 0x20))))) Message = None \<and>
   errorMessage (snd (zodResolver contactSchema (d(Name := JStr s)))) Name =
     (if length s < 2 then Some msg_name else None) \<and>
   errorMessage (snd (zodResolver contactSchema (d(Message := JStr s)))) Message =
     (if length s < 10 then Some msg_message else None)"
  unfolding errorMessage_contact fieldIssues_contact string_min_issues
  by simp

theorem C9_witness:
  "errorMessage (snd (zodResolver contactSchema (sample(Name := JStr [0x3000, 0x09])))) Name = None \<and>
   errorMessage (snd (zodResolver contactSchema (sample(Name := JStr [0x20])))) Name = Some msg_name \<and>
   errorMessage (snd (zodResolver contactSchema
      (sample(Message := JStr [0x20, 0x09, 0x0A, 0x0D, 0x3000, 0x20, 0x20, 0x20, 0x20, 0x20]))))
      Message = None"
  using C9_length_counts_raw_code_units [of sample "[0x3000, 0x09]"]
    C9_length_counts_raw_code_units [of sample "[0x20]"]
    C9_length_counts_raw_code_units
      [of sample "[0x20, 0x09, 0x0A, 0x0D, 0x3000, 0x20, 0x20, 0x20, 0x20, 0x20]"]
  by simp

text \<open>
  C10. An age of NaN has zod's parsed type \<open>nan\<close>, not \<open>number\<close>: whatever the other
  fields are, the record is rejected, and the age gets the type-error message, which is
  neither of the two range messages.
\<close>

theorem C10_NaN_age_type_error:
  "getParsedType (JNum NaN) = T_nan \<and>
   errorMessage (snd (zodResolver contactSchema (d(Age := JNum NaN)))) Age = Some msg_age_type \<and>
   isl (safeParse contactSchema (d(Age := JNum NaN))) \<and>
   msg_age_type \<noteq> msg_age_min \<and> msg_age_type \<noteq> msg_age_max"
proof -
  have "fieldIssues contactSchema (d(Age := JNum NaN)) Age \<noteq> []"
    by (simp add: field_ok)
  then have "isl (safeParse contactSchema (d(Age := JNum NaN)))"
    by (simp add: safeParse_fails)
  then show ?thesis by (simp add: age_outcome messages_differ)
qed

theorem C10_witness:
  "errorMessage (snd (zodResolver contactSchema (sample(Age := JNum NaN)))) Age = Some msg_age_type \<and>
   isl (safeParse contactSchema (sample(Age := JNum NaN)))"
  using C10_NaN_age_type_error [of sample] by simp

end
